theory Spec2Isabelle
  imports
    Main
    "HOL-Library.Sublist"
    "HOL-Library.Char_ord"
    "HOL-Library.List_Lexorder"
    "HOL-Library.Multiset"
    "HOL-Library.Code_Target_Nat"
begin

section \<open>Python strings\<close>

text \<open>
  The string operations of the Python standard library that the scrapers apply to the
  texts they extract, over ASCII text (a \<^typ>\<open>string\<close> is a list of bytes).
\<close>

definition startswith :: "string \<Rightarrow> string \<Rightarrow> bool" where
  "startswith s p = prefix p s"

text \<open>\<^verbatim>\<open>sub in s\<close>: \<open>sub\<close> occurs in \<open>s\<close>.\<close>

fun contains :: "string \<Rightarrow> string \<Rightarrow> bool" where
  "contains [] sub = (sub = [])"
| "contains (c # cs) sub = (prefix sub (c # cs) \<or> contains cs sub)"

text \<open>\<^verbatim>\<open>s.replace(old, new)\<close>: every occurrence of \<open>old\<close>, left to right, without overlap.\<close>

function replace :: "string \<Rightarrow> string \<Rightarrow> string \<Rightarrow> string" where
  "replace old new [] = (if old = [] then new else [])"
| "replace old new (c # cs) =
     (if old = [] then new @ c # replace old new cs
      else if prefix old (c # cs) then new @ replace old new (drop (length old) (c # cs))
      else c # replace old new cs)"
  by pat_completeness auto
termination
  by (relation "measure (\<lambda>(old, new, s). length s)") (auto simp: neq_Nil_conv)

text \<open>The whitespace of \<^verbatim>\<open>str.strip()\<close> and \<^verbatim>\<open>int()\<close>.\<close>

definition is_space :: "char \<Rightarrow> bool" where
  "is_space c = ((of_char c :: nat) \<in> {9, 10, 11, 12, 13, 28, 29, 30, 31, 32})"

definition strip :: "string \<Rightarrow> string" where
  "strip s = rev (dropWhile is_space (rev (dropWhile is_space s)))"

text \<open>
  \<^verbatim>\<open>s.split(sep)\<close> for a non-empty separator; \<open>cur\<close> holds the piece being read,
  reversed.
\<close>

function split_from :: "string \<Rightarrow> string \<Rightarrow> string \<Rightarrow> string list" where
  "split_from sep cur [] = [rev cur]"
| "split_from sep cur (c # cs) =
     (if sep \<noteq> [] \<and> prefix sep (c # cs)
      then rev cur # split_from sep [] (drop (length sep) (c # cs))
      else split_from sep (c # cur) cs)"
  by pat_completeness auto
termination
  by (relation "measure (\<lambda>(sep, cur, s). length s)") (auto simp: neq_Nil_conv)

definition split :: "string \<Rightarrow> string \<Rightarrow> string list" where
  "split s sep = split_from sep [] s"

definition is_digit :: "char \<Rightarrow> bool" where
  "is_digit c = (CHR ''0'' \<le> c \<and> c \<le> CHR ''9'')"

definition digit_val :: "char \<Rightarrow> nat" where
  "digit_val c = of_char c - 48"

definition digit_char :: "nat \<Rightarrow> char" where
  "digit_char d = char_of (48 + d)"

text \<open>\<^verbatim>\<open>str(n)\<close> for a natural number.\<close>

fun str :: "nat \<Rightarrow> string" where
  "str n = (if n < 10 then [digit_char n] else str (n div 10) @ [digit_char (n mod 10)])"

declare str.simps [simp del]

text \<open>
  \<^verbatim>\<open>int(s)\<close>: surrounding whitespace, an optional sign, then decimal digits, where
  single underscores may stand between digits. \<open>None\<close> is ValueError. The flag of
  \<open>int_digits\<close> says that the character before was a digit.
\<close>

fun int_digits :: "bool \<Rightarrow> nat \<Rightarrow> string \<Rightarrow> nat option" where
  "int_digits after_digit acc [] = (if after_digit then Some acc else None)"
| "int_digits after_digit acc (c # cs) =
     (if is_digit c then int_digits True (10 * acc + digit_val c) cs
      else if c = CHR ''_'' \<and> after_digit then int_digits False acc cs
      else None)"

definition py_int :: "string \<Rightarrow> int option" where
  "py_int s =
     (case strip s of
        [] \<Rightarrow> None
      | c # cs \<Rightarrow>
          if c = CHR ''-'' then map_option (\<lambda>n. - int n) (int_digits False 0 cs)
          else if c = CHR ''+'' then map_option int (int_digits False 0 cs)
          else map_option int (int_digits False 0 (c # cs)))"

text \<open>\<^verbatim>\<open>f"{n:,}"\<close>: the decimal digits in groups of three, from the right.\<close>

fun group3 :: "string \<Rightarrow> string" where
  "group3 (a # b # c # d # rest) = a # b # c # CHR '','' # group3 (d # rest)"
| "group3 ds = ds"

definition commas :: "int \<Rightarrow> string" where
  "commas n = (if n < 0 then ''-'' else []) @ rev (group3 (rev (str (nat \<bar>n\<bar>))))"

text \<open>
  \<^verbatim>\<open>re.search(r"\b(202[0-5]|201[5-9])\b", text)\<close>, group 1 of the first match.
  A word character is a letter, a digit or the underscore; \<open>year_scan\<close> carries
  whether the character before the position is one.
\<close>

definition is_word :: "char \<Rightarrow> bool" where
  "is_word c =
     (is_digit c \<or> (CHR ''a'' \<le> c \<and> c \<le> CHR ''z'') \<or> (CHR ''A'' \<le> c \<and> c \<le> CHR ''Z'')
      \<or> c = CHR ''_'')"

fun year_here :: "string \<Rightarrow> string option" where
  "year_here (a # b # c # d # rest) =
     (if a = CHR ''2'' \<and> b = CHR ''0''
         \<and> ((c = CHR ''2'' \<and> CHR ''0'' \<le> d \<and> d \<le> CHR ''5'')
            \<or> (c = CHR ''1'' \<and> CHR ''5'' \<le> d \<and> d \<le> CHR ''9''))
         \<and> (case rest of [] \<Rightarrow> True | e # _ \<Rightarrow> \<not> is_word e)
      then Some [a, b, c, d] else None)"
| "year_here s = None"

fun year_scan :: "bool \<Rightarrow> string \<Rightarrow> string option" where
  "year_scan after_word [] = None"
| "year_scan after_word (c # cs) =
     (case (if after_word then None else year_here (c # cs)) of
        Some y \<Rightarrow> Some y
      | None \<Rightarrow> year_scan (is_word c) cs)"

definition year_search :: "string \<Rightarrow> string option" where
  "year_search text = year_scan False text"

text \<open>
  \<^verbatim>\<open>list.sort(key=key, reverse=True)\<close>: descending by key, and stable (elements with
  equal keys keep their order), which is a stable ascending sort of the reversed list,
  reversed.
\<close>

definition sort_reverse :: "('a \<Rightarrow> 'k::linorder) \<Rightarrow> 'a list \<Rightarrow> 'a list" where
  "sort_reverse key xs = rev (sort_key key (rev xs))"

section \<open>Data model\<close>

text \<open>
  The records are the dictionaries the scrapers build and save as JSON. The price holds a
  Python value that may be \<^verbatim>\<open>None\<close>. For the other fields of type \<open>string option\<close>,
  \<open>None\<close> says that the dictionary has no such key: \<open>auctionUrl\<close> is added by the detail
  stage; \<open>signage\<close>, \<open>provenance\<close>, \<open>condition\<close>, \<open>location\<close> and \<open>sale_number\<close>
  are set by deutscherandhackett\_scraper.py only, and \<open>sale_total\<close> by auction\_scraper.py
  only.
\<close>

record lot =
  artist :: string
  lot_title :: string
  medium :: string
  lot_size :: string
  signage :: "string option"
  provenance :: "string option"
  condition :: "string option"
  price :: "string option"
  lot_url :: string
  auctionUrl :: "string option"

record auction =
  url :: string
  title :: string
  year :: string
  location :: "string option"
  date :: string
  sale_number :: "string option"
  sale_total :: "string option"
  lots :: "lot list"

section \<open>Pages\<close>

text \<open>
  What \<^verbatim>\<open>crawler.arun(url=...)\<close> does: it raises, it returns a result whose
  \<^verbatim>\<open>success\<close> is false, or it returns the page. During one stage the answer is a
  function of the URL.
\<close>

datatype 'm response = Raised | Failed | Fetched 'm

text \<open>
  A page is described by what the BeautifulSoup queries of the scrapers find in it; every
  field is named after the variable that holds the query's result, and texts are as
  \<^verbatim>\<open>get_text(strip=True)\<close> returns them.

  A \<^verbatim>\<open>div.pageCatalogue\<close> of the listing page:
  \<^item> \<open>date_elem\<close>: the text of its \<^verbatim>\<open>p.pageCatDesc\<close>;
  \<^item> \<open>year_anchor\<close>: the id of the nearest \<^verbatim>\<open>a\<close> before it whose id matches
    \<^verbatim>\<open>year-\d+\<close>;
  \<^item> \<open>previous_h2\<close>, \<open>previous_h3\<close>: the texts of the nearest headings before it, and
    \<open>catalogue_text\<close> its own text;
  \<^item> \<open>title_elem\<close>: the text of the first of \<^verbatim>\<open>h3.pageCatTitle\<close>, \<^verbatim>\<open>h4\<close>, \<^verbatim>\<open>h2\<close>;
  \<^item> \<open>sale_total_elem\<close>: the text of the \<^verbatim>\<open>li\<close> or \<^verbatim>\<open>p\<close> with "Sale Total:";
  \<^item> \<open>auction_link\<close>: the href of \<^verbatim>\<open>a.buTTon\<close>, or of the link to
    \<^verbatim>\<open>/catalogue-details/\<close>.
\<close>

record catalogue =
  date_elem :: "string option"
  year_anchor :: "string option"
  previous_h2 :: "string option"
  previous_h3 :: "string option"
  catalogue_text :: string
  title_elem :: "string option"
  sale_total_elem :: "string option"
  auction_link :: "string option"

text \<open>
  A \<^verbatim>\<open>p\<close> of a lot page: its text, stripped and raw, the text of its \<^verbatim>\<open>i\<close>, whether
  it holds a \<^verbatim>\<open>strong\<close> with "Sold For:" or with "Result Hammer:", and the texts of
  its \<^verbatim>\<open>span.price\<close> elements.
\<close>

record para =
  p_text :: string
  p_raw :: string
  p_italic :: "string option"
  sold_for :: bool
  result_hammer :: bool
  price_spans :: "string list"

text \<open>A \<^verbatim>\<open>div.pageListing\<close> row: the href of its \<^verbatim>\<open>a.buTTon\<close> to \<^verbatim>\<open>/items/\d+\<close>.\<close>

record lot_row =
  lot_link :: "string option"

text \<open>
  The page: the catalogue divs, the listing rows, the hrefs of the links in
  \<^verbatim>\<open>div.pageListingNav\<close>, the paragraphs of \<^verbatim>\<open>div.pageLotDescriptionTxt\<close> and of
  \<^verbatim>\<open>div.pageLotDetails\<close> (\<open>None\<close>: no such div), the \<^verbatim>\<open>p\<close> after the first
  paragraph of the description (\<open>title_p\<close>) and the \<^verbatim>\<open>p\<close> after that one
  (\<open>medium_size_p\<close>).
\<close>

record html =
  catalogue_divs :: "catalogue list"
  lot_rows :: "lot_row list"
  nav_hrefs :: "string list"
  description_div :: "para list option"
  details_div :: "para list option"
  title_p :: "para option"
  medium_size_p :: "para option"

type_synonym crawler = "string \<Rightarrow> html response"

text \<open>
  \<^verbatim>\<open>urllib.parse.urljoin\<close> is a parameter of the model: the joined URL, or \<open>None\<close>
  when it raises ValueError, as it does on a reference like \<^verbatim>\<open>//[/items/3\<close>.
\<close>

type_synonym urljoin = "string \<Rightarrow> string \<Rightarrow> string option"

text \<open>The exceptions of the model.\<close>

datatype error = OSError | JSONDecodeError | TypeError | AttributeError | ValueError

definition site :: string where
  "site = ''https://www.menziesartbrands.com''"

section \<open>Discovery: \<^verbatim>\<open>scrape_past_auctions\<close> of auction\_scraper.py\<close>

definition valid_years :: "string set" where
  "valid_years = set (map str [2015..<2026])"

text \<open>
  The year of a catalogue (lines 50 to 73): the date text first; then the year anchor,
  whose id is taken without "year-"; then the first of the previous h2, the previous h3
  and the catalogue itself whose text holds a year.
\<close>

fun first_year :: "string option list \<Rightarrow> string option" where
  "first_year [] = None"
| "first_year (None # elems) = first_year elems"
| "first_year (Some text # elems) =
     (case year_search text of Some y \<Rightarrow> Some y | None \<Rightarrow> first_year elems)"

definition resolve_year :: "catalogue \<Rightarrow> string option" where
  "resolve_year c =
     (let year = (case date_elem c of None \<Rightarrow> None | Some date_text \<Rightarrow> year_search date_text)
      in if year = None then
           (case year_anchor c of
              Some ident \<Rightarrow> Some (replace ''year-'' [] ident)
            | None \<Rightarrow> first_year [previous_h2 c, previous_h3 c, Some (catalogue_text c)])
         else year)"

text \<open>
  The URL of a catalogue (lines 89 to 93): the empty string when it has no link, and
  \<open>None\<close> when \<^verbatim>\<open>urljoin\<close> raises.
\<close>

definition resolve_url :: "urljoin \<Rightarrow> catalogue \<Rightarrow> string option" where
  "resolve_url urljoin c =
     (let auction_url = (case auction_link c of Some href \<Rightarrow> href | None \<Rightarrow> [])
      in if startswith auction_url ''/'' then urljoin site auction_url else Some auction_url)"

text \<open>
  The body of the loop over the catalogues: \<open>Inr None\<close> is \<^verbatim>\<open>continue\<close>, and \<open>Inl\<close>
  the exception of \<^verbatim>\<open>urljoin\<close>, which comes after the test of the year.
\<close>

definition catalogue_auction ::
  "urljoin \<Rightarrow> string set \<Rightarrow> catalogue \<Rightarrow> error + auction option" where
  "catalogue_auction urljoin existing_urls c =
     (case resolve_year c of
        None \<Rightarrow> Inr None
      | Some y \<Rightarrow>
          if y \<notin> valid_years then Inr None
          else
            let date_text = (case date_elem c of Some t \<Rightarrow> t | None \<Rightarrow> [])
            in (case resolve_url urljoin c of
                 None \<Rightarrow> Inl ValueError
               | Some auction_url \<Rightarrow>
                   if auction_url = [] then Inr None
                   else if auction_url \<in> existing_urls then Inr None
                   else Inr (Some \<lparr>
                     url = auction_url,
                     title = (case title_elem c of Some t \<Rightarrow> t | None \<Rightarrow> ''No title found''),
                     year = y,
                     location = None,
                     date = (if date_text \<noteq> [] then date_text else ''No date found''),
                     sale_number = None,
                     sale_total =
                       Some (case sale_total_elem c of
                               Some t \<Rightarrow> replace ''Sale Total: '' [] t
                             | None \<Rightarrow> ''No sale total found''),
                     lots = [] \<rparr>)))"

text \<open>The loop: the list \<^verbatim>\<open>auctions_data\<close> at its end, or the exception that ends it.\<close>

fun catalogue_auctions :: "urljoin \<Rightarrow> string set \<Rightarrow> catalogue list \<Rightarrow> error + auction list" where
  "catalogue_auctions urljoin existing_urls [] = Inr []"
| "catalogue_auctions urljoin existing_urls (c # cs) =
     (case catalogue_auction urljoin existing_urls c of
        Inl err \<Rightarrow> Inl err
      | Inr collected \<Rightarrow>
          (case catalogue_auctions urljoin existing_urls cs of
             Inl err \<Rightarrow> Inl err
           | Inr rest \<Rightarrow> Inr ((case collected of Some a \<Rightarrow> [a] | None \<Rightarrow> []) @ rest)))"

text \<open>
  The stage returns the new auctions and the URLs it fetched. An exception, of the fetch
  or of the loop, and a failed fetch give the empty list, and so does a page with no
  catalogue.
\<close>

definition scrape_past_auctions ::
  "urljoin \<Rightarrow> crawler \<Rightarrow> string \<Rightarrow> string set \<Rightarrow> auction list \<times> string list" where
  "scrape_past_auctions urljoin crawler listing_url existing_urls =
     (case crawler listing_url of
        Raised \<Rightarrow> []
      | Failed \<Rightarrow> []
      | Fetched page \<Rightarrow>
          if catalogue_divs page = [] then []
          else
            (case catalogue_auctions urljoin existing_urls (catalogue_divs page) of
               Inl err \<Rightarrow> []
             | Inr auctions_data \<Rightarrow> sort_reverse year auctions_data),
      [listing_url])"

text \<open>The list \<^verbatim>\<open>auctions_data\<close> of the stage before it is sorted (line 113).\<close>

definition found :: "urljoin \<Rightarrow> crawler \<Rightarrow> string \<Rightarrow> string set \<Rightarrow> auction list" where
  "found uj crawler u K =
     (case crawler u of
        Fetched page \<Rightarrow>
          (case catalogue_auctions uj K (catalogue_divs page) of
             Inl err \<Rightarrow> []
           | Inr auctions_data \<Rightarrow> auctions_data)
      | _ \<Rightarrow> [])"

text \<open>What the body of the loop appends for a catalogue, when it appends.\<close>

definition appended :: "urljoin \<Rightarrow> string set \<Rightarrow> catalogue \<Rightarrow> auction option" where
  "appended uj K c = (case catalogue_auction uj K c of Inr collected \<Rightarrow> collected | Inl err \<Rightarrow> None)"

section \<open>Detail stage of auction\_scraper.py\<close>

subsection \<open>\<^verbatim>\<open>scrape_lot_details\<close>\<close>

text \<open>
  The price of a \<^verbatim>\<open>span.price\<close>: its text without commas, read by \<^verbatim>\<open>int\<close> and
  written as \<^verbatim>\<open>f"${price_num:,}"\<close>; \<open>None\<close> when \<^verbatim>\<open>int\<close> raises ValueError.
\<close>

definition span_price :: "string \<Rightarrow> string option" where
  "span_price text =
     (case py_int (replace '','' [] text) of
        Some price_num \<Rightarrow> Some (''$'' @ commas price_num)
      | None \<Rightarrow> None)"

text \<open>
  The two loops over the paragraphs (lines 170 to 185 and 191 to 206): the first
  paragraph with the label and a price span ends the loop, whether its price can be read
  or not; a paragraph with the label and no span is passed over.
\<close>

definition sold_for_price :: "para list \<Rightarrow> string option" where
  "sold_for_price ps =
     (case List.find (\<lambda>p. sold_for p \<and> price_spans p \<noteq> []) ps of
        None \<Rightarrow> None
      | Some p \<Rightarrow> span_price (hd (price_spans p)))"

definition result_hammer_price :: "para list \<Rightarrow> string option" where
  "result_hammer_price ps =
     (case List.find (\<lambda>p. result_hammer p \<and> price_spans p \<noteq> []) ps of
        None \<Rightarrow> None
      | Some p \<Rightarrow> span_price (hd (price_spans p)))"

definition sold_price :: "html \<Rightarrow> string option" where
  "sold_price soup =
     (let sold = (case details_div soup of Some ps \<Rightarrow> sold_for_price ps | None \<Rightarrow> None)
      in if sold = None
         then (case description_div soup of Some ps \<Rightarrow> result_hammer_price ps | None \<Rightarrow> None)
         else sold)"

text \<open>The lines of the medium and size paragraph (line 160).\<close>

definition text_lines :: "string \<Rightarrow> string list" where
  "text_lines raw = filter (\<lambda>line. line \<noteq> []) (map strip (split raw [CHR 0x0A]))"

text \<open>
  The dictionary of the lot, once artist, title, medium and size are known (lines 166 to
  221): a lot with no sold price is skipped.
\<close>

definition priced_lot :: "html \<Rightarrow> string \<Rightarrow> string \<Rightarrow> string \<Rightarrow> string \<Rightarrow> string \<Rightarrow> lot option" where
  "priced_lot soup u a t m s =
     (if sold_price soup = None then None
      else Some \<lparr>
        artist = a, lot_title = t, medium = m, lot_size = s,
        signage = None, provenance = None, condition = None,
        price = sold_price soup, lot_url = u, auctionUrl = None \<rparr>)"

text \<open>
  The extraction from the page (lines 134 to 221). With a description div that holds no
  paragraph, \<^verbatim>\<open>artist_p\<close> is \<^verbatim>\<open>None\<close>, so \<^verbatim>\<open>title_p\<close> is never assigned, and the
  test \<^verbatim>\<open>description_div and title_p\<close> of line 157 raises UnboundLocalError: the handler
  of \<^verbatim>\<open>scrape_lot_details\<close> returns \<^verbatim>\<open>None\<close>.
\<close>

definition lot_of_page :: "html \<Rightarrow> string \<Rightarrow> lot option" where
  "lot_of_page soup u =
     (case description_div soup of
        None \<Rightarrow>
          priced_lot soup u ''Unknown Artist'' ''Unknown Title'' ''Unknown Medium''
            ''Not specified''
      | Some [] \<Rightarrow> None
      | Some (artist_p # _) \<Rightarrow>
          (case title_p soup of
             None \<Rightarrow>
               priced_lot soup u (p_text artist_p) ''Unknown Title'' ''Unknown Medium''
                 ''Not specified''
           | Some tp \<Rightarrow>
               let t = (case p_italic tp of Some i \<Rightarrow> i | None \<Rightarrow> ''Unknown Title'');
                   lines = (case medium_size_p soup of
                              Some mp \<Rightarrow> text_lines (p_raw mp)
                            | None \<Rightarrow> [])
               in priced_lot soup u (p_text artist_p) t
                    (if lines \<noteq> [] then lines ! 0 else ''Unknown Medium'')
                    (if length lines > 1 then lines ! 1 else ''Not specified'')))"

text \<open>The fetch of the lot page and the extraction (lines 128 to 221), with the URLs fetched.\<close>

definition fetch_lot :: "crawler \<Rightarrow> string \<Rightarrow> lot option \<times> string list" where
  "fetch_lot crawler u =
     (case crawler u of
        Raised \<Rightarrow> None
      | Failed \<Rightarrow> None
      | Fetched soup \<Rightarrow> lot_of_page soup u,
      [u])"

text \<open>
  The task of one lot: the lot, or \<open>None\<close> (a fetch that fails or raises, no sold price,
  an exception of the extraction or of \<^verbatim>\<open>urljoin\<close>, which comes before the fetch), and
  the URLs fetched.
\<close>

definition scrape_lot_details :: "urljoin \<Rightarrow> crawler \<Rightarrow> string \<Rightarrow> lot option \<times> string list" where
  "scrape_lot_details urljoin crawler lot_url0 =
     (if startswith lot_url0 ''/''
      then (case urljoin site lot_url0 of
              None \<Rightarrow> (None, [])
            | Some u \<Rightarrow> fetch_lot crawler u)
      else fetch_lot crawler lot_url0)"

subsection \<open>\<^verbatim>\<open>scrape_auction_details\<close>\<close>

definition page_url :: "string \<Rightarrow> nat \<Rightarrow> string" where
  "page_url base_url page = (if page > 1 then base_url @ ''?page='' @ str page else base_url)"

text \<open>
  The URLs of the tasks of a page, one for every row with a lot link, in row order
  (lines 253 to 262); \<open>None\<close> when \<^verbatim>\<open>urljoin\<close> raises on a lot link, which ends the
  stage, since the row loop is not inside the handler of a task.
\<close>

definition tasks :: "urljoin \<Rightarrow> html \<Rightarrow> string list option" where
  "tasks urljoin soup = those (map (urljoin site) (List.map_filter lot_link (lot_rows soup)))"

text \<open>
  \<^verbatim>\<open>asyncio.gather(*tasks, return_exceptions=True)\<close>: the results of the tasks, in the
  order of the tasks.
\<close>

definition gather :: "urljoin \<Rightarrow> crawler \<Rightarrow> string list \<Rightarrow> (lot option \<times> string list) list" where
  "gather urljoin crawler lot_urls = map (scrape_lot_details urljoin crawler) lot_urls"

text \<open>The valid lots of the tasks with their \<open>auctionUrl\<close> (lines 272 to 277).\<close>

definition page_lots :: "urljoin \<Rightarrow> crawler \<Rightarrow> string \<Rightarrow> string list \<Rightarrow> lot list" where
  "page_lots urljoin crawler base_url lot_urls =
     map (\<lambda>lot. lot\<lparr>auctionUrl := Some base_url\<rparr>)
       (List.map_filter fst (gather urljoin crawler lot_urls))"

definition next_page :: "html \<Rightarrow> nat \<Rightarrow> bool" where
  "next_page soup page = list_ex (\<lambda>href. contains href (''page='' @ str (page + 1))) (nav_hrefs soup)"

text \<open>
  One turn of the loop: the exception of the fetch leaves the function, \<open>Break\<close> leaves
  the loop, \<open>Continue\<close> goes to the next page; both carry the lots the turn adds to
  \<^verbatim>\<open>all_lots\<close>. With it come the URLs fetched.
\<close>

datatype turn = Raise | Break (added: "lot list") | Continue (added: "lot list")
  where "added Raise = []"

definition scrape_page :: "urljoin \<Rightarrow> crawler \<Rightarrow> string \<Rightarrow> nat \<Rightarrow> turn \<times> string list" where
  "scrape_page urljoin crawler base_url page =
     (let u = page_url base_url page
      in case crawler u of
           Raised \<Rightarrow> (Raise, [u])
         | Failed \<Rightarrow> (Break [], [u])
         | Fetched soup \<Rightarrow>
             if lot_rows soup = [] then (Break [], [u])
             else
               (case tasks urljoin soup of
                  None \<Rightarrow> (Raise, [u])
                | Some lot_urls \<Rightarrow>
                    let new_lots = page_lots urljoin crawler base_url lot_urls;
                        fetched = u # concat (map snd (gather urljoin crawler lot_urls))
                    in if \<not> next_page soup page then (Break new_lots, fetched)
                       else (Continue new_lots, fetched)))"

text \<open>
  The loop \<^verbatim>\<open>while True\<close>: \<open>None\<close> when it never ends; otherwise \<^verbatim>\<open>all_lots\<close> at the
  end of the loop, or \<open>None\<close> for the exception, and the URLs fetched.
\<close>

partial_function (option) page_loop ::
  "urljoin \<Rightarrow> crawler \<Rightarrow> string \<Rightarrow> nat \<Rightarrow> lot list \<Rightarrow> string list
     \<Rightarrow> (lot list option \<times> string list) option" where
  "page_loop urljoin crawler base_url page all_lots fetched =
     (case scrape_page urljoin crawler base_url page of
        (Raise, us) \<Rightarrow> Some (None, fetched @ us)
      | (Break new_lots, us) \<Rightarrow> Some (Some (all_lots @ new_lots), fetched @ us)
      | (Continue new_lots, us) \<Rightarrow>
          page_loop urljoin crawler base_url (page + 1) (all_lots @ new_lots) (fetched @ us))"

declare page_loop.simps [code]

text \<open>
  What the loop does with a page, read off the answer of the crawler. The turn raises
  when the fetch raises, or \<^verbatim>\<open>urljoin\<close> on a lot link of the page. The loop goes on to
  the next page when the page is fetched, has rows whose tasks are built, and links to the
  next page. And the page adds its valid lots to \<^verbatim>\<open>all_lots\<close>.
\<close>

definition raises :: "urljoin \<Rightarrow> crawler \<Rightarrow> string \<Rightarrow> nat \<Rightarrow> bool" where
  "raises urljoin crawler base_url page =
     (case crawler (page_url base_url page) of
        Raised \<Rightarrow> True
      | Failed \<Rightarrow> False
      | Fetched soup \<Rightarrow> tasks urljoin soup = None)"

definition goes_on :: "urljoin \<Rightarrow> crawler \<Rightarrow> string \<Rightarrow> nat \<Rightarrow> bool" where
  "goes_on urljoin crawler base_url page =
     (case crawler (page_url base_url page) of
        Fetched soup \<Rightarrow> lot_rows soup \<noteq> [] \<and> tasks urljoin soup \<noteq> None \<and> next_page soup page
      | _ \<Rightarrow> False)"

definition lots_of_page :: "urljoin \<Rightarrow> crawler \<Rightarrow> string \<Rightarrow> nat \<Rightarrow> lot list" where
  "lots_of_page urljoin crawler base_url page =
     (case crawler (page_url base_url page) of
        Fetched soup \<Rightarrow>
          (case tasks urljoin soup of
             Some lot_urls \<Rightarrow> page_lots urljoin crawler base_url lot_urls
           | None \<Rightarrow> [])
      | _ \<Rightarrow> [])"

text \<open>
  The stage returns its flag, the auction as it leaves it, and the URLs fetched; \<open>None\<close>
  when the loop never ends.
\<close>

definition scrape_auction_details ::
  "urljoin \<Rightarrow> crawler \<Rightarrow> auction \<Rightarrow> (bool \<times> auction \<times> string list) option" where
  "scrape_auction_details urljoin crawler auction =
     (if lots auction \<noteq> [] then Some (True, auction, [])
      else
        case page_loop urljoin crawler (url auction) 1 [] [] of
          None \<Rightarrow> None
        | Some (None, fetched) \<Rightarrow> Some (False, auction, fetched)
        | Some (Some all_lots, fetched) \<Rightarrow> Some (True, auction\<lparr>lots := all_lots\<rparr>, fetched))"

section \<open>Resume store and orchestrator of auction\_scraper.py\<close>

text \<open>
  The output file: it does not exist; it cannot be opened; its content is not JSON; its
  content is JSON with no length (a number, a truth value or null); or it is a list of
  auctions, which is what \<^verbatim>\<open>save_progress\<close> writes.
\<close>

datatype json_file = Missing | Unreadable | Corrupt | Scalar | Snapshot "auction list"

text \<open>
  The body of the \<^verbatim>\<open>try\<close> of \<^verbatim>\<open>load_existing_data\<close> (lines 16 to 23): \<^verbatim>\<open>open\<close> and
  \<^verbatim>\<open>json.load\<close> can raise, and so can \<^verbatim>\<open>len(data)\<close> in the log line.
\<close>

definition load_try :: "json_file \<Rightarrow> error + auction list" where
  "load_try f =
     (case f of
        Missing \<Rightarrow> Inr []
      | Unreadable \<Rightarrow> Inl OSError
      | Corrupt \<Rightarrow> Inl JSONDecodeError
      | Scalar \<Rightarrow> Inl TypeError
      | Snapshot data \<Rightarrow> Inr data)"

text \<open>With the handler (lines 24 to 26); \<open>Inl\<close> would be an exception that leaves it.\<close>

definition load_existing_data :: "json_file \<Rightarrow> error + auction list" where
  "load_existing_data f = (case load_try f of Inl e \<Rightarrow> Inr [] | Inr data \<Rightarrow> Inr data)"

text \<open>
  The state of a run. The auction dictionaries are objects that the lists of \<^verbatim>\<open>main\<close>
  share, so the lists hold references: the indices of the objects in \<open>heap\<close>. \<open>disk\<close> is
  the output file, \<open>saved\<close> the arguments of the calls of \<^verbatim>\<open>save_progress\<close> so far, and
  \<open>fetched\<close> the URLs fetched so far.
\<close>

record state =
  heap :: "auction list"
  disk :: json_file
  saved :: "auction list list"
  fetched :: "string list"

text \<open>
  What happens to a write is a parameter, a function of the number of calls of
  \<^verbatim>\<open>save_progress\<close> before it: the file is written; \<^verbatim>\<open>open\<close> raises and the file stays
  as it is; or \<^verbatim>\<open>json.dump\<close> raises and leaves a file that is not JSON.
\<close>

datatype write_result = Written | OpenFails | DumpFails

text \<open>\<^verbatim>\<open>save_progress\<close> (lines 297 to 304) catches and logs the exception.\<close>

definition save_progress :: "(nat \<Rightarrow> write_result) \<Rightarrow> nat list \<Rightarrow> state \<Rightarrow> state" where
  "save_progress writes auctions_data s =
     (let data = map (\<lambda>r. heap s ! r) auctions_data
      in s\<lparr>saved := saved s @ [data],
           disk := (case writes (length (saved s)) of
                      Written \<Rightarrow> Snapshot data
                    | OpenFails \<Rightarrow> disk s
                    | DumpFails \<Rightarrow> Corrupt)\<rparr>)"

definition results_url :: string where
  "results_url = ''https://www.menziesartbrands.com/auction/results''"

text \<open>
  The loop of \<^verbatim>\<open>main\<close> over the references of the new auctions (lines 324 to 332): the
  detail stage changes the object, and the whole of \<^verbatim>\<open>auctions_data\<close> is saved after it,
  whatever the flag. \<open>None\<close>: a detail stage never ends.
\<close>

fun process_auctions ::
  "urljoin \<Rightarrow> crawler \<Rightarrow> (nat \<Rightarrow> write_result) \<Rightarrow> nat list \<Rightarrow> nat list \<Rightarrow> state \<Rightarrow> state option" where
  "process_auctions urljoin crawler writes auctions_data [] s = Some s"
| "process_auctions urljoin crawler writes auctions_data (r # rs) s =
     (case scrape_auction_details urljoin crawler (heap s ! r) of
        None \<Rightarrow> None
      | Some (success, auction, us) \<Rightarrow>
          process_auctions urljoin crawler writes auctions_data rs
            (save_progress writes auctions_data
               (s\<lparr>heap := (heap s)[r := auction], fetched := fetched s @ us\<rparr>)))"

text \<open>
  The start of \<^verbatim>\<open>main\<close> once the file is loaded (lines 312 to 321): the references of
  \<^verbatim>\<open>auctions_data\<close>, sorted by the year of their objects, the references of
  \<^verbatim>\<open>new_auctions\<close>, and the state. The existing auctions are the first objects of the
  heap and the new ones follow.
\<close>

definition start :: "urljoin \<Rightarrow> crawler \<Rightarrow> json_file \<Rightarrow> auction list \<Rightarrow> nat list \<times> nat list \<times> state" where
  "start urljoin crawler output_file existing_data =
     (let existing_urls = set (map url existing_data);
          (new_auctions, us) = scrape_past_auctions urljoin crawler results_url existing_urls;
          objects = existing_data @ new_auctions
      in (sort_reverse (\<lambda>r. year (objects ! r)) [0..<length objects],
          [length existing_data..<length objects],
          \<lparr>heap = objects, disk = output_file, saved = [], fetched = us\<rparr>))"

definition main :: "urljoin \<Rightarrow> crawler \<Rightarrow> (nat \<Rightarrow> write_result) \<Rightarrow> json_file \<Rightarrow> (error + state) option" where
  "main urljoin crawler writes output_file =
     (case load_existing_data output_file of
        Inl e \<Rightarrow> Some (Inl e)
      | Inr existing_data \<Rightarrow>
          (case start urljoin crawler output_file existing_data of
             (auctions_data, new_refs, s) \<Rightarrow>
               map_option Inr (process_auctions urljoin crawler writes auctions_data new_refs s)))"

text \<open>
  The run of \<^verbatim>\<open>main\<close> up to the end of the \<open>k\<close>-th turn of its loop: what a process
  that is stopped there has done.
\<close>

definition main_after ::
  "nat \<Rightarrow> urljoin \<Rightarrow> crawler \<Rightarrow> (nat \<Rightarrow> write_result) \<Rightarrow> json_file \<Rightarrow> (error + state) option" where
  "main_after k urljoin crawler writes output_file =
     (case load_existing_data output_file of
        Inl e \<Rightarrow> Some (Inl e)
      | Inr existing_data \<Rightarrow>
          (case start urljoin crawler output_file existing_data of
             (auctions_data, new_refs, s) \<Rightarrow>
               map_option Inr
                 (process_auctions urljoin crawler writes auctions_data (take k new_refs) s)))"

section \<open>deutscherandhackett\_scraper.py\<close>

text \<open>
  The pages of this site, again by what the queries find. A \<^verbatim>\<open>div.views-row\<close> of an
  auction page: whether it holds a \<^verbatim>\<open>div.field-price-sold\<close>, and the href of its link
  to \<^verbatim>\<open>/auction/lot/\<close>.
\<close>

record dh_row =
  row_sold_price_div :: bool
  row_lot_link :: "string option"

text \<open>
  An element after a year heading of the listing page: whether its class has
  \<^verbatim>\<open>views-row\<close>; the href and the text of its first link; and for each of the three
  field divs, \<open>None\<close> when it is missing, \<open>Some None\<close> when it is there without the
  element that holds the text, \<open>Some (Some t)\<close> with the text.
\<close>

record dh_element =
  is_views_row :: bool
  element_link :: "(string \<times> string) option"
  location_div :: "string option option"
  date_div :: "string option option"
  sale_div :: "string option option"

text \<open>A year heading: its text, and the siblings after it up to the next \<^verbatim>\<open>h3\<close>.\<close>

record dh_heading =
  heading_text :: string
  siblings :: "dh_element list"

text \<open>
  The page: the \<^verbatim>\<open>h3\<close> headings, the \<^verbatim>\<open>div.views-row\<close> rows, the text of the first
  \<^verbatim>\<open>p\<close> of each field div of a lot page (\<open>None\<close>: no div or no \<^verbatim>\<open>p\<close>), and the
  texts of \<^verbatim>\<open>div.field-lot-title\<close> and of \<^verbatim>\<open>div.field-price-sold\<close>.
\<close>

record dh_html =
  year_headings :: "dh_heading list"
  views_rows :: "dh_row list"
  artist_p :: "string option"
  title_div :: "string option"
  medium_p :: "string option"
  size_p :: "string option"
  signed_p :: "string option"
  provenance_p :: "string option"
  condition_p :: "string option"
  sold_price_div :: "string option"

type_synonym dh_crawler = "string \<Rightarrow> dh_html response"

definition dh_site :: string where
  "dh_site = ''https://www.deutscherandhackett.com''"

definition dh_absolute :: "string \<Rightarrow> string" where
  "dh_absolute u = (if startswith u ''/'' then dh_site @ u else u)"

subsection \<open>\<^verbatim>\<open>scrape_past_auctions\<close>\<close>

text \<open>\<^verbatim>\<open>year.isdigit() and int(year) <= 2014\<close>, for the stripped text of a heading.\<close>

definition stops :: "string \<Rightarrow> bool" where
  "stops y =
     (y \<noteq> [] \<and> list_all is_digit y
      \<and> (case py_int y of Some n \<Rightarrow> n \<le> 2014 | None \<Rightarrow> False))"

text \<open>
  A field of a row: the default when the div is missing; AttributeError, which ends the
  whole stage, when the div is there without its text element.
\<close>

definition field_text :: "string option option \<Rightarrow> string \<Rightarrow> error + string" where
  "field_text d fallback =
     (case d of None \<Rightarrow> Inr fallback | Some None \<Rightarrow> Inl AttributeError | Some (Some t) \<Rightarrow> Inr t)"

text \<open>The auction of a sibling element, if it is a row with a link to an auction.\<close>

definition dh_element_auction :: "string \<Rightarrow> dh_element \<Rightarrow> error + auction option" where
  "dh_element_auction y e =
     (if \<not> is_views_row e then Inr None
      else
        case element_link e of
          None \<Rightarrow> Inr None
        | Some (href, link_text) \<Rightarrow>
            (if contains href ''/auctions/past'' then Inr None
             else
               (case field_text (location_div e) ''No location found'' of
                  Inl err \<Rightarrow> Inl err
                | Inr loc \<Rightarrow>
                    (case field_text (date_div e) ''No date found'' of
                       Inl err \<Rightarrow> Inl err
                     | Inr d \<Rightarrow>
                         (case field_text (sale_div e) ''No sale number found'' of
                            Inl err \<Rightarrow> Inl err
                          | Inr sale \<Rightarrow>
                              Inr (Some \<lparr>
                                url = dh_absolute href, title = link_text, year = y,
                                location = Some loc, date = d, sale_number = Some sale,
                                sale_total = None, lots = [] \<rparr>))))))"

fun dh_elements :: "string \<Rightarrow> dh_element list \<Rightarrow> error + auction list" where
  "dh_elements y [] = Inr []"
| "dh_elements y (e # es) =
     (case dh_element_auction y e of
        Inl err \<Rightarrow> Inl err
      | Inr found_auction \<Rightarrow>
          (case dh_elements y es of
             Inl err \<Rightarrow> Inl err
           | Inr rest \<Rightarrow>
               Inr ((case found_auction of Some a \<Rightarrow> [a] | None \<Rightarrow> []) @ rest)))"

text \<open>The loop over the headings stops at the first year up to 2014.\<close>

fun dh_headings :: "dh_heading list \<Rightarrow> error + auction list" where
  "dh_headings [] = Inr []"
| "dh_headings (h # hs) =
     (let y = strip (heading_text h)
      in if stops y then Inr []
         else
           case dh_elements y (siblings h) of
             Inl err \<Rightarrow> Inl err
           | Inr here \<Rightarrow>
               (case dh_headings hs of Inl err \<Rightarrow> Inl err | Inr rest \<Rightarrow> Inr (here @ rest)))"

definition dh_scrape_past_auctions :: "dh_crawler \<Rightarrow> string \<Rightarrow> auction list \<times> string list" where
  "dh_scrape_past_auctions crawler listing_url =
     (case crawler listing_url of
        Raised \<Rightarrow> []
      | Failed \<Rightarrow> []
      | Fetched soup \<Rightarrow>
          (case dh_headings (year_headings soup) of Inl err \<Rightarrow> [] | Inr auctions_data \<Rightarrow> auctions_data),
      [listing_url])"

subsection \<open>\<^verbatim>\<open>scrape_lot_details\<close>\<close>

text \<open>The price (line 104), of which an empty one counts as missing (line 106).\<close>

definition dh_sold_price :: "dh_html \<Rightarrow> string option" where
  "dh_sold_price soup =
     (case sold_price_div soup of
        Some t \<Rightarrow> Some (strip (replace ''Sold for'' [] (hd (split t ''in''))))
      | None \<Rightarrow> None)"

definition dh_lot_of_page :: "dh_html \<Rightarrow> string \<Rightarrow> lot option" where
  "dh_lot_of_page soup u =
     (if dh_sold_price soup = None \<or> dh_sold_price soup = Some [] then None
      else Some \<lparr>
        artist = (case artist_p soup of Some t \<Rightarrow> t | None \<Rightarrow> ''Unknown Artist''),
        lot_title = (case title_div soup of Some t \<Rightarrow> t | None \<Rightarrow> ''Unknown Title''),
        medium = (case medium_p soup of Some t \<Rightarrow> t | None \<Rightarrow> ''Unknown Medium''),
        lot_size = (case size_p soup of Some t \<Rightarrow> t | None \<Rightarrow> ''Not specified''),
        signage = Some (case signed_p soup of Some t \<Rightarrow> t | None \<Rightarrow> ''No signage found''),
        provenance = Some (case provenance_p soup of Some t \<Rightarrow> t | None \<Rightarrow> ''Not specified''),
        condition = Some (case condition_p soup of Some t \<Rightarrow> t | None \<Rightarrow> ''Not specified''),
        price = dh_sold_price soup, lot_url = u, auctionUrl = None \<rparr>)"

definition dh_scrape_lot_details :: "dh_crawler \<Rightarrow> string \<Rightarrow> lot option \<times> string list" where
  "dh_scrape_lot_details crawler lot_url0 =
     (let u = dh_absolute lot_url0
      in (case crawler u of
            Raised \<Rightarrow> None
          | Failed \<Rightarrow> None
          | Fetched soup \<Rightarrow> dh_lot_of_page soup u,
          [u]))"

subsection \<open>\<^verbatim>\<open>scrape_auction_details\<close>\<close>

text \<open>The tasks: one for every row with a sold price and a lot link, in row order.\<close>

definition dh_tasks :: "dh_html \<Rightarrow> string list" where
  "dh_tasks soup =
     List.map_filter (\<lambda>row. if row_sold_price_div row then row_lot_link row else None)
       (views_rows soup)"

text \<open>
  \<^verbatim>\<open>asyncio.gather(*tasks)\<close>: the results in the order of the tasks; no task raises,
  since \<^verbatim>\<open>scrape_lot_details\<close> catches every exception.
\<close>

definition dh_gather :: "dh_crawler \<Rightarrow> string list \<Rightarrow> (lot option \<times> string list) list" where
  "dh_gather crawler lot_urls = map (dh_scrape_lot_details crawler) lot_urls"

definition dh_scrape_auction_details ::
  "dh_crawler \<Rightarrow> auction \<Rightarrow> bool \<times> auction \<times> string list" where
  "dh_scrape_auction_details crawler auction =
     (if lots auction \<noteq> [] then (True, auction, [])
      else
        case crawler (url auction) of
          Raised \<Rightarrow> (False, auction, [url auction])
        | Failed \<Rightarrow> (False, auction, [url auction])
        | Fetched soup \<Rightarrow>
            let lot_details = dh_gather crawler (dh_tasks soup)
            in (True,
                auction\<lparr>lots :=
                  map (\<lambda>lot. lot\<lparr>auctionUrl := Some (url auction)\<rparr>)
                    (List.map_filter fst lot_details)\<rparr>,
                url auction # concat (map snd lot_details)))"

subsection \<open>\<^verbatim>\<open>save_progress\<close> and \<^verbatim>\<open>main\<close>\<close>

text \<open>Here \<^verbatim>\<open>save_progress\<close> has no handler: a write that fails ends the run.\<close>

definition dh_save_progress :: "(nat \<Rightarrow> write_result) \<Rightarrow> state \<Rightarrow> error + state" where
  "dh_save_progress writes s =
     (case writes (length (saved s)) of
        Written \<Rightarrow> Inr (s\<lparr>saved := saved s @ [heap s], disk := Snapshot (heap s)\<rparr>)
      | OpenFails \<Rightarrow> Inl OSError
      | DumpFails \<Rightarrow> Inl OSError)"

text \<open>
  The loop of \<^verbatim>\<open>main\<close> over all of \<^verbatim>\<open>auctions_data\<close> (lines 187 to 191), from the
  \<open>i\<close>-th auction on: \<open>n\<close> counts the auctions left.
\<close>

fun dh_process :: "dh_crawler \<Rightarrow> (nat \<Rightarrow> write_result) \<Rightarrow> nat \<Rightarrow> nat \<Rightarrow> state \<Rightarrow> error + state" where
  "dh_process crawler writes i 0 s = Inr s"
| "dh_process crawler writes i (Suc n) s =
     (case dh_scrape_auction_details crawler (heap s ! i) of
        (success, auction, us) \<Rightarrow>
          (case dh_save_progress writes (s\<lparr>heap := (heap s)[i := auction], fetched := fetched s @ us\<rparr>) of
             Inl err \<Rightarrow> Inl err
           | Inr s' \<Rightarrow> dh_process crawler writes (Suc i) n s'))"

definition dh_past_url :: string where
  "dh_past_url = ''https://www.deutscherandhackett.com/auctions/past''"

text \<open>
  \<^verbatim>\<open>main\<close> (lines 172 to 193) loads the file with no handler, and scrapes the listing
  only when there is no file.
\<close>

definition dh_main :: "dh_crawler \<Rightarrow> (nat \<Rightarrow> write_result) \<Rightarrow> json_file \<Rightarrow> error + state" where
  "dh_main crawler writes output_file =
     (case output_file of
        Missing \<Rightarrow>
          (case dh_scrape_past_auctions crawler dh_past_url of
             (auctions_data, us) \<Rightarrow>
               (case dh_save_progress writes
                       \<lparr>heap = auctions_data, disk = output_file, saved = [], fetched = us\<rparr> of
                  Inl err \<Rightarrow> Inl err
                | Inr s \<Rightarrow> dh_process crawler writes 0 (length auctions_data) s))
      | Unreadable \<Rightarrow> Inl OSError
      | Corrupt \<Rightarrow> Inl JSONDecodeError
      | Scalar \<Rightarrow> Inl TypeError
      | Snapshot auctions_data \<Rightarrow>
          dh_process crawler writes 0 (length auctions_data)
            \<lparr>heap = auctions_data, disk = output_file, saved = [], fetched = []\<rparr>)"

section \<open>A small site\<close>

text \<open>
  Concrete pages on which the stages are run. \<open>join\<close> stands for \<^verbatim>\<open>urljoin\<close> on the
  references of these pages: those that start with one slash, and those that start with
  \<^verbatim>\<open>//[\<close>, on which \<^verbatim>\<open>urljoin\<close> raises.
\<close>

definition join :: urljoin where
  "join base ref = (if startswith ref ''//['' then None else Some (base @ ref))"

definition blank :: html where
  "blank = \<lparr>catalogue_divs = [], lot_rows = [], nav_hrefs = [], description_div = None,
     details_div = None, title_p = None, medium_size_p = None\<rparr>"

definition entry :: "string \<Rightarrow> string \<Rightarrow> catalogue" where
  "entry date_text href = \<lparr>date_elem = Some date_text, year_anchor = None, previous_h2 = None,
     previous_h3 = None, catalogue_text = date_text, title_elem = None, sale_total_elem = None,
     auction_link = Some href\<rparr>"

text \<open>Four catalogues, of 2016, 2012, 2020 and 2018.\<close>

definition listing :: html where
  "listing = blank\<lparr>catalogue_divs :=
     [entry ''23 March 2016'' ''/catalogue-details/1'',
      entry ''14 June 2012'' ''/catalogue-details/2'',
      entry ''9 April 2020'' ''/catalogue-details/3'',
      entry ''30 August 2018'' ''/catalogue-details/4'']\<rparr>"

definition auction_1 :: string where
  "auction_1 = ''https://www.menziesartbrands.com/catalogue-details/1''"

definition auction_3 :: string where
  "auction_3 = ''https://www.menziesartbrands.com/catalogue-details/3''"

definition auction_4 :: string where
  "auction_4 = ''https://www.menziesartbrands.com/catalogue-details/4''"

definition item :: "string \<Rightarrow> string" where
  "item n = ''https://www.menziesartbrands.com/items/'' @ n"

text \<open>
  The first auction has two pages: five lots on the first, two on the second. The page
  of lot 3 cannot be fetched, and lot 7 has no sold price.
\<close>

definition page_1 :: html where
  "page_1 = blank\<lparr>
     lot_rows := map (\<lambda>n. \<lparr>lot_link = Some (''/items/'' @ n)\<rparr>) [''1'', ''2'', ''3'', ''4'', ''5''],
     nav_hrefs := [''/catalogue-details/1?page=2'']\<rparr>"

definition page_2 :: html where
  "page_2 = blank\<lparr>
     lot_rows := map (\<lambda>n. \<lparr>lot_link = Some (''/items/'' @ n)\<rparr>) [''6'', ''7'']\<rparr>"

definition sold_page :: "string \<Rightarrow> html" where
  "sold_page amount = blank\<lparr>details_div :=
     Some [\<lparr>p_text = ''Sold For: $'' @ amount, p_raw = ''Sold For: $'' @ amount, p_italic = None,
            sold_for = True, result_hammer = False, price_spans = [amount]\<rparr>]\<rparr>"

definition unsold_page :: html where
  "unsold_page = blank\<lparr>details_div := Some []\<rparr>"

text \<open>The site: the fetch of the third auction raises.\<close>

definition web :: crawler where
  "web u =
     (if u = results_url then Fetched listing
      else if u = auction_1 then Fetched page_1
      else if u = auction_1 @ ''?page=2'' then Fetched page_2
      else if u = auction_3 then Raised
      else if u = item ''1'' then Fetched (sold_page ''1,200'')
      else if u = item ''2'' then Fetched (sold_page ''850'')
      else if u = item ''4'' then Fetched (sold_page ''12,500'')
      else if u = item ''5'' then Fetched (sold_page ''3,000'')
      else if u = item ''6'' then Fetched (sold_page ''40,000'')
      else if u = item ''7'' then Fetched unsold_page
      else Failed)"

text \<open>The same site on a day when the second page of the first auction fails.\<close>

definition web_down :: crawler where
  "web_down u = (if u = auction_1 @ ''?page=2'' then Failed else web u)"

definition sold_lot :: "string \<Rightarrow> string \<Rightarrow> lot" where
  "sold_lot n amount = \<lparr>artist = ''Unknown Artist'', lot_title = ''Unknown Title'',
     medium = ''Unknown Medium'', lot_size = ''Not specified'', signage = None, provenance = None,
     condition = None, price = Some (''$'' @ amount), lot_url = item n,
     auctionUrl = Some auction_1\<rparr>"

definition found_auction :: "string \<Rightarrow> string \<Rightarrow> string \<Rightarrow> auction" where
  "found_auction u y d = \<lparr>url = u, title = ''No title found'', year = y, location = None,
     date = d, sale_number = None, sale_total = Some ''No sale total found'', lots = []\<rparr>"

text \<open>A page of auction 81 of the other site, with two sold rows; lot 2 cannot be fetched.\<close>

definition dh_blank :: dh_html where
  "dh_blank = \<lparr>year_headings = [], views_rows = [], artist_p = None, title_div = None,
     medium_p = None, size_p = None, signed_p = None, provenance_p = None, condition_p = None,
     sold_price_div = None\<rparr>"

definition dh_auction_81 :: string where
  "dh_auction_81 = ''https://www.deutscherandhackett.com/81-important-australian-indigenous-art''"

definition dh_web :: dh_crawler where
  "dh_web u =
     (if u = dh_auction_81 then
        Fetched (dh_blank\<lparr>views_rows :=
          [\<lparr>row_sold_price_div = True, row_lot_link = Some ''/auction/lot/1''\<rparr>,
           \<lparr>row_sold_price_div = True, row_lot_link = Some ''/auction/lot/2''\<rparr>,
           \<lparr>row_sold_price_div = False, row_lot_link = Some ''/auction/lot/3''\<rparr>]\<rparr>)
      else if u = ''https://www.deutscherandhackett.com/auction/lot/1'' then
        Fetched (dh_blank\<lparr>sold_price_div := Some ''Sold for $1,200 in Auction 38''\<rparr>)
      else Failed)"

definition dh_auction :: auction where
  "dh_auction = \<lparr>url = dh_auction_81, title = ''Beyond Sacred'', year = ''2015'',
     location = Some ''Sydney'', date = ''8 March 2015'', sale_number = Some ''38'',
     sale_total = None, lots = []\<rparr>"

definition dh_lot_1 :: lot where
  "dh_lot_1 = \<lparr>artist = ''Unknown Artist'', lot_title = ''Unknown Title'',
     medium = ''Unknown Medium'', lot_size = ''Not specified'', signage = Some ''No signage found'',
     provenance = Some ''Not specified'', condition = Some ''Not specified'',
     price = Some ''$1,200'', lot_url = ''https://www.deutscherandhackett.com/auction/lot/1'',
     auctionUrl = Some dh_auction_81\<rparr>"

text \<open>The first auction as discovery returns it, and with one lot already recorded.\<close>

definition first_auction :: auction where
  "first_auction = found_auction auction_1 ''2016'' ''23 March 2016''"

definition filled_auction :: auction where
  "filled_auction = first_auction\<lparr>lots := [sold_lot ''1'' ''1,200'']\<rparr>"

definition pages :: "nat \<Rightarrow> html" where
  "pages p = (if p = 1 then page_1 else page_2)"


text \<open>
  The first auction after its detail stage on \<open>web\<close>, and after the stage on
  \<open>web_down\<close>, which stops at the second page; and the URLs the first one fetches.
\<close>

definition full_auction :: auction where
  "full_auction = first_auction\<lparr>lots :=
     [sold_lot ''1'' ''1,200'', sold_lot ''2'' ''850'', sold_lot ''4'' ''12,500'',
      sold_lot ''5'' ''3,000'', sold_lot ''6'' ''40,000'']\<rparr>"

definition half_auction :: auction where
  "half_auction = first_auction\<lparr>lots :=
     [sold_lot ''1'' ''1,200'', sold_lot ''2'' ''850'', sold_lot ''4'' ''12,500'',
      sold_lot ''5'' ''3,000'']\<rparr>"

definition first_urls :: "string list" where
  "first_urls = [auction_1, item ''1'', item ''2'', item ''3'', item ''4'', item ''5'',
     auction_1 @ ''?page=2'', item ''6'', item ''7'']"

definition third_auction :: auction where
  "third_auction = found_auction auction_3 ''2020'' ''9 April 2020''"

definition fourth_auction :: auction where
  "fourth_auction = found_auction auction_4 ''2018'' ''30 August 2018''"

text \<open>
  A run on \<open>web\<close> from a file that holds the fourth auction with a lot: the state after
  both new auctions, the third (whose fetch raises) and the first.
\<close>

definition old_auction :: auction where
  "old_auction = fourth_auction\<lparr>lots := [(sold_lot ''8'' ''500'')\<lparr>auctionUrl := Some auction_4\<rparr>]\<rparr>"

definition web_state :: state where
  "web_state = \<lparr>heap = [old_auction, third_auction, full_auction],
     disk = Snapshot [third_auction, old_auction, full_auction],
     saved = [[third_auction, old_auction, first_auction],
              [third_auction, old_auction, full_auction]],
     fetched = results_url # auction_3 # first_urls\<rparr>"

text \<open>
  A run on \<open>web\<close> from a file that holds the first auction with no lots, as a run that
  was stopped, or whose detail stage failed, leaves it: the state at the end.
\<close>

definition retry_state :: state where
  "retry_state = \<lparr>heap = [first_auction, third_auction, fourth_auction],
     disk = Snapshot [third_auction, fourth_auction, first_auction],
     saved = [[third_auction, fourth_auction, first_auction],
              [third_auction, fourth_auction, first_auction]],
     fetched = [results_url, auction_3, auction_4]\<rparr>"

text \<open>
  A listing and an auction page with a reference on which \<^verbatim>\<open>urljoin\<close> raises, and the
  site with them.
\<close>

definition bad_listing :: html where
  "bad_listing = blank\<lparr>catalogue_divs :=
     [entry ''9 April 2020'' ''/catalogue-details/3'',
      entry ''23 March 2016'' ''//[::1/catalogue-details/1'']\<rparr>"

definition bad_page :: html where
  "bad_page = blank\<lparr>
     lot_rows := map (\<lambda>h. \<lparr>lot_link = Some h\<rparr>) [''/items/1'', ''//[/items/3''],
     nav_hrefs := []\<rparr>"

definition web_bad :: crawler where
  "web_bad u =
     (if u = results_url then Fetched bad_listing
      else if u = auction_1 then Fetched bad_page
      else web u)"
lemma valid_years_range: "valid_years = str ` {2015..2025}"
proof -
  have "{2015..2025::nat} = {2015..<2026}"
    by (rule set_eqI) (simp only: atLeastLessThan_iff atLeastAtMost_iff, arith)
  then show ?thesis by (simp only: valid_years_def set_map set_upt)
qed

lemma str_range:
  "str 2015 = ''2015''" "str 2016 = ''2016''" "str 2017 = ''2017''" "str 2018 = ''2018''"
  "str 2019 = ''2019''" "str 2020 = ''2020''" "str 2021 = ''2021''" "str 2022 = ''2022''"
  "str 2023 = ''2023''" "str 2024 = ''2024''" "str 2025 = ''2025''"
  by code_simp+

lemma range_cases:
  "2015 \<le> (n::nat) \<Longrightarrow> n \<le> 2025 \<Longrightarrow>
     n = 2015 \<or> n = 2016 \<or> n = 2017 \<or> n = 2018 \<or> n = 2019 \<or> n = 2020 \<or> n = 2021
     \<or> n = 2022 \<or> n = 2023 \<or> n = 2024 \<or> n = 2025"
  by arith

lemma str_le_range:
  assumes "2015 \<le> m" "m \<le> 2025" "2015 \<le> n" "n \<le> 2025" "str m \<le> str n"
  shows "m \<le> n"
  using range_cases [OF assms(1,2)] range_cases [OF assms(3,4)] assms(5)
  by (elim disjE; simp add: str_range)

lemma catalogue_auction_Inl:
  "catalogue_auction uj K c = Inl e \<longleftrightarrow>
     e = ValueError \<and> (\<exists>y \<in> valid_years. resolve_year c = Some y) \<and> resolve_url uj c = None"
  by (auto simp: catalogue_auction_def Let_def split: option.splits)

lemma appended_fields:
  assumes "appended uj K c = Some a"
  shows "resolve_url uj c = Some (url a)" "resolve_year c = Some (year a)"
    "year a \<in> valid_years" "url a \<noteq> []" "url a \<notin> K" "lots a = []"
  using assms
  by (auto simp: appended_def catalogue_auction_def Let_def
      split: option.splits if_splits sum.splits)

lemma appended_None:
  "appended uj K c = None \<longleftrightarrow>
     \<not> ((\<exists>y \<in> valid_years. resolve_year c = Some y)
        \<and> (case resolve_url uj c of Some v \<Rightarrow> v \<noteq> [] \<and> v \<notin> K | None \<Rightarrow> False))"
  by (auto simp: appended_def catalogue_auction_def Let_def split: option.splits sum.splits)

lemma catalogue_auctions_cases:
  "catalogue_auctions uj K cs =
     (if \<exists>c \<in> set cs. (\<exists>y \<in> valid_years. resolve_year c = Some y) \<and> resolve_url uj c = None
      then Inl ValueError
      else Inr (List.map_filter (appended uj K) cs))"
proof (induction cs)
  case Nil
  show ?case by simp
next
  case (Cons c cs)
  show ?case
  proof (cases "catalogue_auction uj K c")
    case (Inl e)
    then show ?thesis using catalogue_auction_Inl [of uj K c e] by auto
  next
    case (Inr collected)
    then have no: "\<not> ((\<exists>y \<in> valid_years. resolve_year c = Some y) \<and> resolve_url uj c = None)"
      using catalogue_auction_Inl [of uj K c ValueError] by auto
    have ap: "appended uj K c = collected" using Inr by (simp add: appended_def)
    show ?thesis
    proof (cases "\<exists>c \<in> set cs. (\<exists>y \<in> valid_years. resolve_year c = Some y)
        \<and> resolve_url uj c = None")
      case True
      then show ?thesis using Cons Inr by auto
    next
      case False
      then have "catalogue_auctions uj K cs = Inr (List.map_filter (appended uj K) cs)"
        using Cons by simp
      moreover have "List.map_filter (appended uj K) (c # cs) =
          (case collected of Some a \<Rightarrow> [a] | None \<Rightarrow> []) @ List.map_filter (appended uj K) cs"
        using ap by (simp split: option.splits)
      ultimately show ?thesis using Inr no False by simp
    qed
  qed
qed

lemma set_sort_reverse [simp]: "set (sort_reverse key xs) = set xs"
  by (simp add: sort_reverse_def)

lemma sorted_sort_reverse: "sorted (rev (map key (sort_reverse key xs)))"
  by (simp add: sort_reverse_def rev_map)

lemma filter_sort_reverse:
  "filter (\<lambda>x. key x = k) (sort_reverse key xs) = filter (\<lambda>x. key x = k) xs"
  by (simp add: sort_reverse_def rev_filter [symmetric] sort_key_stable)

lemma sort_reverse_Nil_iff [simp]: "sort_reverse key xs = [] \<longleftrightarrow> xs = []"
  by (metis set_sort_reverse set_empty)

lemma map_filter_Nil_iff: "List.map_filter f xs = [] \<longleftrightarrow> (\<forall>x\<in>set xs. f x = None)"
  by (induction xs) (auto simp: split: option.splits)

lemma set_map_filter: "set (List.map_filter f xs) = {y. \<exists>x\<in>set xs. f x = Some y}"
  by (induction xs) (auto simp: split: option.splits)

lemma scrape_past_auctions_found:
  "fst (scrape_past_auctions uj crawler u K) = sort_reverse year (found uj crawler u K)"
  by (auto simp: scrape_past_auctions_def found_def sort_reverse_def
      split: response.splits sum.splits)

lemma found_raises:
  assumes "crawler u = Fetched page"
    and "\<exists>c \<in> set (catalogue_divs page).
           (\<exists>y \<in> valid_years. resolve_year c = Some y) \<and> resolve_url uj c = None"
  shows "found uj crawler u K = []"
proof -
  have "catalogue_auctions uj K (catalogue_divs page) = Inl ValueError"
    unfolding catalogue_auctions_cases using assms(2) by (rule if_P)
  then show ?thesis using assms(1) by (simp add: found_def)
qed

lemma found_appended:
  assumes "crawler u = Fetched page"
    and "\<not> (\<exists>c \<in> set (catalogue_divs page).
           (\<exists>y \<in> valid_years. resolve_year c = Some y) \<and> resolve_url uj c = None)"
  shows "found uj crawler u K = List.map_filter (appended uj K) (catalogue_divs page)"
proof -
  have "catalogue_auctions uj K (catalogue_divs page) =
      Inr (List.map_filter (appended uj K) (catalogue_divs page))"
    unfolding catalogue_auctions_cases using assms(2) by (rule if_not_P)
  then show ?thesis using assms(1) by (simp add: found_def)
qed

lemma found_member:
  assumes "a \<in> set (found uj crawler u K)"
  obtains c where "appended uj K c = Some a"
proof (cases "crawler u")
  case (Fetched page)
  show ?thesis
  proof (cases "\<exists>c \<in> set (catalogue_divs page).
           (\<exists>y \<in> valid_years. resolve_year c = Some y) \<and> resolve_url uj c = None")
    case True
    have "found uj crawler u K = []" using Fetched True by (rule found_raises)
    then show ?thesis using assms by simp
  next
    case False
    have "found uj crawler u K = List.map_filter (appended uj K) (catalogue_divs page)"
      using Fetched False by (rule found_appended)
    then have "a \<in> {y. \<exists>x\<in>set (catalogue_divs page). appended uj K x = Some y}"
      using assms by (simp only: set_map_filter)
    then show ?thesis using that by blast
  qed
next
  case Raised
  then show ?thesis using assms by (simp add: found_def)
next
  case Failed
  then show ?thesis using assms by (simp add: found_def)
qed

lemma found_fields:
  assumes "a \<in> set (found uj crawler u K)"
  shows "year a \<in> valid_years" "url a \<noteq> []" "url a \<notin> K" "lots a = []"
proof -
  from assms obtain c where "appended uj K c = Some a" by (rule found_member)
  from appended_fields [OF this]
  show "year a \<in> valid_years" "url a \<noteq> []" "url a \<notin> K" "lots a = []"
    by simp_all
qed

lemma found_again:
  assumes "url ` set (found uj crawler u K) \<union> K \<subseteq> K'"
  shows "found uj crawler u K' = []"
proof (cases "crawler u")
  case (Fetched page)
  show ?thesis
  proof (cases "\<exists>c \<in> set (catalogue_divs page).
           (\<exists>y \<in> valid_years. resolve_year c = Some y) \<and> resolve_url uj c = None")
    case True
    show ?thesis using Fetched True by (rule found_raises)
  next
    case False
    have fK: "found uj crawler u K = List.map_filter (appended uj K) (catalogue_divs page)"
      using Fetched False by (rule found_appended)
    have fK': "found uj crawler u K' = List.map_filter (appended uj K') (catalogue_divs page)"
      using Fetched False by (rule found_appended)
    have "appended uj K' c = None" if c: "c \<in> set (catalogue_divs page)" for c
    proof (cases "appended uj K c")
      case None
      then show ?thesis using assms by (auto simp: appended_None split: option.splits)
    next
      case (Some a)
      then have "a \<in> set (found uj crawler u K)" using c by (auto simp: fK set_map_filter)
      then have "url a \<in> K'" using assms by auto
      then show ?thesis using appended_fields(1) [OF Some] by (simp add: appended_None)
    qed
    then show ?thesis by (simp add: fK' map_filter_Nil_iff)
  qed
next
  case Raised
  then show ?thesis by (simp add: found_def)
next
  case Failed
  then show ?thesis by (simp add: found_def)
qed

text \<open>
  C3. Discovery never returns an auction whose URL is among the known ones; and a second
  discovery on the same listing, with the URLs of the first result added to the known
  ones, returns nothing.
\<close>

theorem discovery_idempotent:
  "(\<forall>a \<in> set (fst (scrape_past_auctions uj crawler u K)). url a \<notin> K) \<and>
   fst (scrape_past_auctions uj crawler u
          (url ` set (fst (scrape_past_auctions uj crawler u K)) \<union> K)) = []"
  using found_fields(3) [of _ uj crawler u K] found_again [OF order_refl, of uj crawler u K]
  by (simp add: scrape_past_auctions_found)

lemma map_appended_url:
  "map url (filter (\<lambda>a. year a = y) (List.map_filter (appended uj K) cs)) =
   List.map_filter (resolve_url uj)
     (filter (\<lambda>c. resolve_year c = Some y \<and> y \<in> valid_years
                \<and> (case resolve_url uj c of Some v \<Rightarrow> v \<noteq> [] \<and> v \<notin> K | None \<Rightarrow> False)) cs)"
  (is "?lhs cs = List.map_filter (resolve_url uj) (filter ?P cs)")
proof (induction cs)
  case Nil
  show ?case by (simp add: List.map_filter_simps)
next
  case (Cons c cs)
  show ?case
  proof (cases "appended uj K c")
    case None
    have L: "List.map_filter (appended uj K) (c # cs) = List.map_filter (appended uj K) cs"
      using None by (simp add: List.map_filter_simps)
    have "\<not> ?P c" using None unfolding appended_None by blast
    then have R: "filter ?P (c # cs) = filter ?P cs" by simp
    show ?thesis by (simp only: L R Cons.IH)
  next
    case (Some a)
    note f = appended_fields [OF Some]
    have L: "List.map_filter (appended uj K) (c # cs) = a # List.map_filter (appended uj K) cs"
      using Some by (simp add: List.map_filter_simps)
    show ?thesis
    proof (cases "year a = y")
      case True
      have "?P c" using f True by simp
      then have R: "filter ?P (c # cs) = c # filter ?P cs" by simp
      have "?lhs (c # cs) = url a # ?lhs cs" unfolding L using True by simp
      moreover have "List.map_filter (resolve_url uj) (c # filter ?P cs) =
          url a # List.map_filter (resolve_url uj) (filter ?P cs)"
        using f(1) by (simp add: List.map_filter_simps)
      ultimately show ?thesis by (simp only: R Cons.IH)
    next
      case False
      have "\<not> ?P c" using f(2) False by simp
      then have R: "filter ?P (c # cs) = filter ?P cs" by simp
      have "?lhs (c # cs) = ?lhs cs" unfolding L using False by simp
      then show ?thesis by (simp only: R Cons.IH)
    qed
  qed
qed

lemma years_numbers:
  assumes "\<forall>y \<in> set ys. y \<in> valid_years" "sorted (rev ys)"
  shows "\<exists>ns. ys = map str ns \<and> sorted (rev ns) \<and> (\<forall>n \<in> set ns. 2015 \<le> n \<and> n \<le> 2025)"
proof -
  define g where "g y = (SOME n. 2015 \<le> n \<and> n \<le> 2025 \<and> y = str n)" for y
  have g: "2015 \<le> g y \<and> g y \<le> 2025 \<and> y = str (g y)" if "y \<in> set ys" for y
  proof -
    have "y \<in> str ` {2015..2025}"
      using assms(1) that by (simp add: valid_years_range)
    then obtain n where "n \<in> {2015..2025}" "y = str n" by (rule imageE)
    then have "\<exists>n. 2015 \<le> n \<and> n \<le> 2025 \<and> y = str n" by auto
    then show ?thesis unfolding g_def by (rule someI_ex)
  qed
  have "ys = map str (map g ys)" using g by (simp add: map_idI)
  moreover have "sorted (rev (map g ys))"
  proof -
    have "sorted_wrt (\<lambda>a b. b \<le> a) ys" using assms(2) by (simp add: sorted_wrt_rev)
    then have "sorted_wrt (\<lambda>a b. g b \<le> g a) ys"
      by (rule sorted_wrt_mono_rel [rotated]) (metis g str_le_range)
    then show ?thesis by (simp add: sorted_wrt_rev sorted_wrt_map)
  qed
  moreover have "\<forall>n \<in> set (map g ys). 2015 \<le> n \<and> n \<le> 2025" using g by auto
  ultimately show ?thesis by blast
qed

text \<open>
  C8. Every auction that discovery returns has a year from 2015 to 2025, a URL that is
  not empty, and no lots; and the years of the result descend. When \<^verbatim>\<open>urljoin\<close>
  raises on the link of a catalogue with such a year, the stage returns nothing.
  Otherwise, for every year, the auctions of that year are those of the catalogues with
  that year and with a URL that is not empty and not known, in the order of the page: a
  catalogue whose year is not resolved or out of range, or that has no URL, gives no
  auction.
\<close>

theorem discovery_output:
  "(\<forall>a \<in> set (fst (scrape_past_auctions uj crawler u K)).
      year a \<in> str ` {2015..2025} \<and> url a \<noteq> [] \<and> lots a = []) \<and>
   (\<exists>ns. map year (fst (scrape_past_auctions uj crawler u K)) = map str ns \<and> sorted (rev ns)) \<and>
   (\<forall>page. crawler u = Fetched page \<longrightarrow>
      (if \<exists>c \<in> set (catalogue_divs page).
            (\<exists>y \<in> str ` {2015..2025}. resolve_year c = Some y) \<and> resolve_url uj c = None
       then fst (scrape_past_auctions uj crawler u K) = []
       else \<forall>y. map url (filter (\<lambda>a. year a = y) (fst (scrape_past_auctions uj crawler u K))) =
              List.map_filter (resolve_url uj)
                (filter (\<lambda>c. resolve_year c = Some y \<and> y \<in> str ` {2015..2025}
                           \<and> (case resolve_url uj c of
                                 Some v \<Rightarrow> v \<noteq> [] \<and> v \<notin> K
                               | None \<Rightarrow> False))
                   (catalogue_divs page))))"
proof (intro conjI allI impI)
  show "\<forall>a \<in> set (fst (scrape_past_auctions uj crawler u K)).
      year a \<in> str ` {2015..2025} \<and> url a \<noteq> [] \<and> lots a = []"
    using found_fields [of _ uj crawler u K]
    by (simp add: scrape_past_auctions_found valid_years_range)
next
  let ?out = "fst (scrape_past_auctions uj crawler u K)"
  have "\<forall>y \<in> set (map year ?out). y \<in> valid_years"
    using found_fields(1) [of _ uj crawler u K] by (auto simp: scrape_past_auctions_found)
  moreover have "sorted (rev (map year ?out))"
    by (simp add: scrape_past_auctions_found sorted_sort_reverse)
  ultimately show "\<exists>ns. map year ?out = map str ns \<and> sorted (rev ns)"
    using years_numbers by blast
next
  fix page
  assume page: "crawler u = Fetched page"
  let ?out = "fst (scrape_past_auctions uj crawler u K)"
  let ?C = "\<lambda>Y. \<exists>c \<in> set (catalogue_divs page).
            (\<exists>y \<in> Y. resolve_year c = Some y) \<and> resolve_url uj c = None"
  let ?R = "\<lambda>Y. \<forall>y. map url (filter (\<lambda>a. year a = y) ?out) =
              List.map_filter (resolve_url uj)
                (filter (\<lambda>c. resolve_year c = Some y \<and> y \<in> Y
                           \<and> (case resolve_url uj c of
                                 Some v \<Rightarrow> v \<noteq> [] \<and> v \<notin> K
                               | None \<Rightarrow> False))
                   (catalogue_divs page))"
  have "if ?C valid_years then ?out = [] else ?R valid_years"
  proof (cases "?C valid_years")
    case True
    have "found uj crawler u K = []" using page True by (rule found_raises)
    then have "?out = []" by (simp add: scrape_past_auctions_found)
    then show ?thesis unfolding if_P [OF True] .
  next
    case False
    have "found uj crawler u K = List.map_filter (appended uj K) (catalogue_divs page)"
      using page False by (rule found_appended)
    then have "?R valid_years"
      by (simp only: scrape_past_auctions_found filter_sort_reverse map_appended_url simp_thms)
    then show ?thesis unfolding if_not_P [OF False] .
  qed
  then show "if ?C (str ` {2015..2025}) then ?out = [] else ?R (str ` {2015..2025})"
    by (simp only: valid_years_range)
qed



lemma map_filter_map: "List.map_filter f (map g xs) = List.map_filter (\<lambda>x. f (g x)) xs"
  by (simp add: List.map_filter_def filter_map comp_def)

lemma tasks_no_rows: "lot_rows soup = [] \<Longrightarrow> tasks uj soup = Some []"
  by (simp add: tasks_def List.map_filter_simps)

lemma page_lots_Nil: "page_lots uj c b [] = []"
  by (simp add: page_lots_def gather_def List.map_filter_simps)

lemma scrape_page_turn:
  "fst (scrape_page uj c b p) =
     (if raises uj c b p then Raise
      else if goes_on uj c b p then Continue (lots_of_page uj c b p)
      else Break (lots_of_page uj c b p))"
proof (cases "c (page_url b p)")
  case Raised
  then show ?thesis by (simp add: scrape_page_def raises_def Let_def)
next
  case Failed
  then show ?thesis
    by (simp add: scrape_page_def raises_def goes_on_def lots_of_page_def Let_def)
next
  case (Fetched soup)
  show ?thesis
  proof (cases "lot_rows soup = []")
    case True
    then show ?thesis using Fetched
      by (simp add: scrape_page_def raises_def goes_on_def lots_of_page_def Let_def
          tasks_no_rows page_lots_Nil)
  next
    case False
    show ?thesis
    proof (cases "tasks uj soup")
      case None
      then show ?thesis using Fetched False
        by (simp add: scrape_page_def raises_def Let_def)
    next
      case (Some lot_urls)
      then show ?thesis using Fetched False
        by (simp add: scrape_page_def raises_def goes_on_def lots_of_page_def Let_def)
    qed
  qed
qed

lemma goes_on_not_raises: "goes_on uj c b p \<Longrightarrow> \<not> raises uj c b p"
  by (auto simp: goes_on_def raises_def split: response.splits)

lemma page_loop_ends:
  assumes "\<forall>p. page \<le> p \<and> p < n \<longrightarrow> goes_on uj c b p" "page \<le> n" "\<not> goes_on uj c b n"
  shows "page_loop uj c b page all_lots fs =
     Some (if raises uj c b n then None
           else Some (all_lots @ concat (map (lots_of_page uj c b) [page..<Suc n])),
           fs @ concat (map (\<lambda>p. snd (scrape_page uj c b p)) [page..<Suc n]))"
  using assms
proof (induction "n - page" arbitrary: page all_lots fs)
  case 0
  then have [simp]: "page = n" by simp
  obtain t us where sp: "scrape_page uj c b n = (t, us)" by (cases "scrape_page uj c b n")
  have t: "t = (if raises uj c b n then Raise else Break (lots_of_page uj c b n))"
    using scrape_page_turn [of uj c b n] sp "0.prems"(3) by simp
  show ?case
    by (subst page_loop.simps) (simp add: sp t)
next
  case (Suc d)
  then have lt: "page < n" by simp
  then have go: "goes_on uj c b page" using Suc.prems(1) by simp
  obtain t us where sp: "scrape_page uj c b page = (t, us)"
    by (cases "scrape_page uj c b page")
  have "\<not> raises uj c b page" using go by (rule goes_on_not_raises)
  then have t: "t = Continue (lots_of_page uj c b page)"
    using scrape_page_turn [of uj c b page] sp go by simp
  have "page_loop uj c b (Suc page) (all_lots @ lots_of_page uj c b page) (fs @ us) =
     Some (if raises uj c b n then None
           else Some ((all_lots @ lots_of_page uj c b page)
                  @ concat (map (lots_of_page uj c b) [Suc page..<Suc n])),
           (fs @ us) @ concat (map (\<lambda>p. snd (scrape_page uj c b p)) [Suc page..<Suc n]))"
    using Suc.hyps(2) Suc.prems lt by (intro Suc.hyps(1)) auto
  moreover have "[page..<Suc n] = page # [Suc page..<Suc n]"
    using lt by (simp add: upt_conv_Cons)
  ultimately show ?case
    by (subst page_loop.simps) (auto simp: sp t)
qed

lemma lot_of_page_Some:
  assumes "lot_of_page soup u = Some l"
  shows "price l = sold_price soup" "sold_price soup \<noteq> None" "lot_url l = u"
  using assms
  by (auto simp: lot_of_page_def priced_lot_def Let_def split: option.splits list.splits if_splits)

lemma fetch_lot_Some:
  assumes "fst (fetch_lot c v) = Some l"
  shows "\<exists>soup. c (lot_url l) = Fetched soup \<and> sold_price soup = price l \<and> price l \<noteq> None"
proof -
  from assms obtain soup where soup: "c v = Fetched soup" "lot_of_page soup v = Some l"
    by (auto simp: fetch_lot_def split: response.splits)
  from lot_of_page_Some [OF soup(2)] soup(1) show ?thesis by auto
qed

lemma scrape_lot_details_Some:
  assumes "fst (scrape_lot_details uj c u) = Some l"
  shows "\<exists>soup. c (lot_url l) = Fetched soup \<and> sold_price soup = price l \<and> price l \<noteq> None"
proof -
  from assms obtain v where "fst (fetch_lot c v) = Some l"
    by (auto simp: scrape_lot_details_def split: if_splits option.splits)
  then show ?thesis by (rule fetch_lot_Some)
qed

lemma page_lots_member:
  assumes "l \<in> set (page_lots uj c b lot_urls)"
  shows "auctionUrl l = Some b"
    "\<exists>soup'. c (lot_url l) = Fetched soup' \<and> sold_price soup' = price l \<and> price l \<noteq> None"
proof -
  from assms obtain l0 u where l: "l = l0\<lparr>auctionUrl := Some b\<rparr>"
    and l0: "fst (scrape_lot_details uj c u) = Some l0"
    by (auto simp: page_lots_def gather_def set_map_filter map_filter_map)
  show "auctionUrl l = Some b" by (simp add: l)
  from scrape_lot_details_Some [OF l0]
  show "\<exists>soup'. c (lot_url l) = Fetched soup' \<and> sold_price soup' = price l \<and> price l \<noteq> None"
    by (simp add: l)
qed

lemma lots_of_page_member:
  assumes "l \<in> set (lots_of_page uj c b p)"
  shows "auctionUrl l = Some b"
    "\<exists>soup. c (lot_url l) = Fetched soup \<and> sold_price soup = price l \<and> price l \<noteq> None"
  using assms page_lots_member [of l uj c b]
  by (auto simp: lots_of_page_def split: response.splits option.splits)

lemma page_loop_lots:
  assumes "page_loop uj c b page all_lots fs = Some r"
  shows "\<forall>ls. fst r = Some ls \<longrightarrow> set ls \<subseteq> set all_lots \<union> (\<Union>p. set (lots_of_page uj c b p))"
proof (rule page_loop.raw_induct [where P = "\<lambda>uj c b page all_lots fs r.
    \<forall>ls. fst r = Some ls \<longrightarrow> set ls \<subseteq> set all_lots \<union> (\<Union>p. set (lots_of_page uj c b p))"])
  show "page_loop uj c b page all_lots fs = Some r" by fact
next
  fix f :: "urljoin \<Rightarrow> crawler \<Rightarrow> string \<Rightarrow> nat \<Rightarrow> lot list \<Rightarrow> string list
      \<Rightarrow> (lot list option \<times> string list) option"
    and uj c b page all_lots fs r
  assume IH: "\<And>uj c b page all_lots fs r. f uj c b page all_lots fs = Some r \<Longrightarrow>
    \<forall>ls. fst r = Some ls \<longrightarrow> set ls \<subseteq> set all_lots \<union> (\<Union>p. set (lots_of_page uj c b p))"
  assume step: "(case scrape_page uj c b page of
      (Raise, us) \<Rightarrow> Some (None, fs @ us)
    | (Break new_lots, us) \<Rightarrow> Some (Some (all_lots @ new_lots), fs @ us)
    | (Continue new_lots, us) \<Rightarrow> f uj c b (page + 1) (all_lots @ new_lots) (fs @ us)) = Some r"
  obtain t us where sp: "scrape_page uj c b page = (t, us)"
    by (cases "scrape_page uj c b page")
  have t: "added t = lots_of_page uj c b page \<or> t = Raise"
    using scrape_page_turn [of uj c b page] sp by (auto split: if_splits)
  show "\<forall>ls. fst r = Some ls \<longrightarrow> set ls \<subseteq> set all_lots \<union> (\<Union>p. set (lots_of_page uj c b p))"
  proof (cases t)
    case Raise
    then show ?thesis using step sp by auto
  next
    case (Break new)
    then show ?thesis using step sp t by auto
  next
    case (Continue new)
    then have "f uj c b (page + 1) (all_lots @ new) (fs @ us) = Some r"
      using step sp by simp
    then have "\<forall>ls. fst r = Some ls \<longrightarrow>
        set ls \<subseteq> set (all_lots @ new) \<union> (\<Union>p. set (lots_of_page uj c b p))"
      by (rule IH)
    moreover have "set new \<subseteq> (\<Union>p. set (lots_of_page uj c b p))"
      using Continue t by auto
    ultimately show ?thesis by auto
  qed
qed

lemma scrape_auction_details_frame:
  assumes "scrape_auction_details uj c a = Some (ok, a', us)"
  shows "a' = a\<lparr>lots := lots a'\<rparr>" "\<not> ok \<longrightarrow> a' = a"
  using assms
  by (auto simp: scrape_auction_details_def split: if_splits option.splits prod.splits)

lemma scrape_auction_details_ends:
  assumes "lots a = []" "1 \<le> n" "\<forall>p. 1 \<le> p \<and> p < n \<longrightarrow> goes_on uj c (url a) p"
    "\<not> goes_on uj c (url a) n"
  shows "scrape_auction_details uj c a =
     Some (if raises uj c (url a) n
           then (False, a, concat (map (\<lambda>p. snd (scrape_page uj c (url a) p)) [1..<Suc n]))
           else (True, a\<lparr>lots := concat (map (lots_of_page uj c (url a)) [1..<Suc n])\<rparr>,
                 concat (map (\<lambda>p. snd (scrape_page uj c (url a) p)) [1..<Suc n])))"
proof -
  have "page_loop uj c (url a) 1 [] [] =
     Some (if raises uj c (url a) n then None
           else Some ([] @ concat (map (lots_of_page uj c (url a)) [1..<Suc n])),
           [] @ concat (map (\<lambda>p. snd (scrape_page uj c (url a) p)) [1..<Suc n]))"
    using assms by (intro page_loop_ends) auto
  then show ?thesis using assms(1) by (auto simp: scrape_auction_details_def)
qed

lemma dh_scrape_auction_details_cases:
  assumes "lots a = []"
  shows "\<exists>us. dh_scrape_auction_details d a =
     (case d (url a) of
        Fetched soup \<Rightarrow>
          (True,
           a\<lparr>lots := map (\<lambda>lot. lot\<lparr>auctionUrl := Some (url a)\<rparr>)
             (List.map_filter (\<lambda>u. fst (dh_scrape_lot_details d u)) (dh_tasks soup))\<rparr>, us)
      | _ \<Rightarrow> (False, a, us))"
  using assms
  by (auto simp: dh_scrape_auction_details_def dh_gather_def map_filter_map Let_def
      split: response.splits)


lemma only_1:
  assumes "P (1::nat)"
  shows "\<forall>p. 1 \<le> p \<and> p < 2 \<longrightarrow> P p"
proof (intro allI impI)
  fix p :: nat
  assume "1 \<le> p \<and> p < 2"
  then have "p = 1" by arith
  then show "P p" using assms by simp
qed

lemma web_first:
  "scrape_auction_details join web first_auction = Some (True, full_auction, first_urls)"
proof -
  have "lots first_auction = []" by code_simp
  moreover have "\<forall>p. 1 \<le> p \<and> p < 2 \<longrightarrow> goes_on join web (url first_auction) p"
  proof -
    have "goes_on join web (url first_auction) 1" by code_simp
    then show ?thesis by (rule only_1)
  qed
  moreover have "\<not> goes_on join web (url first_auction) 2" by code_simp
  ultimately have "scrape_auction_details join web first_auction =
     Some (if raises join web (url first_auction) 2
           then (False, first_auction,
                 concat (map (\<lambda>p. snd (scrape_page join web (url first_auction) p)) [1..<Suc 2]))
           else (True,
                 first_auction\<lparr>lots :=
                   concat (map (lots_of_page join web (url first_auction)) [1..<Suc 2])\<rparr>,
                 concat (map (\<lambda>p. snd (scrape_page join web (url first_auction) p)) [1..<Suc 2])))"
    by (intro scrape_auction_details_ends) simp_all
  also have "\<dots> = Some (True, full_auction, first_urls)" by code_simp
  finally show ?thesis .
qed

lemma web_down_first:
  "scrape_auction_details join web_down first_auction =
     Some (True, half_auction, take 7 first_urls)"
proof -
  have "lots first_auction = []" by code_simp
  moreover have "\<forall>p. 1 \<le> p \<and> p < 2 \<longrightarrow> goes_on join web_down (url first_auction) p"
  proof -
    have "goes_on join web_down (url first_auction) 1" by code_simp
    then show ?thesis by (rule only_1)
  qed
  moreover have "\<not> goes_on join web_down (url first_auction) 2" by code_simp
  ultimately have "scrape_auction_details join web_down first_auction =
     Some (if raises join web_down (url first_auction) 2
           then (False, first_auction,
                 concat (map (\<lambda>p. snd (scrape_page join web_down (url first_auction) p)) [1..<Suc 2]))
           else (True,
                 first_auction\<lparr>lots :=
                   concat (map (lots_of_page join web_down (url first_auction)) [1..<Suc 2])\<rparr>,
                 concat (map (\<lambda>p. snd (scrape_page join web_down (url first_auction) p)) [1..<Suc 2])))"
    by (intro scrape_auction_details_ends) simp_all
  also have "\<dots> = Some (True, half_auction, take 7 first_urls)" by code_simp
  finally show ?thesis .
qed

lemma web_third:
  "scrape_auction_details join web third_auction = Some (False, third_auction, [auction_3])"
proof -
  have "lots third_auction = []" by code_simp
  moreover have "\<not> goes_on join web (url third_auction) 1" by code_simp
  ultimately have "scrape_auction_details join web third_auction =
     Some (if raises join web (url third_auction) 1
           then (False, third_auction,
                 concat (map (\<lambda>p. snd (scrape_page join web (url third_auction) p)) [1..<Suc 1]))
           else (True,
                 third_auction\<lparr>lots :=
                   concat (map (lots_of_page join web (url third_auction)) [1..<Suc 1])\<rparr>,
                 concat (map (\<lambda>p. snd (scrape_page join web (url third_auction) p)) [1..<Suc 1])))"
    by (intro scrape_auction_details_ends) simp_all
  also have "\<dots> = Some (False, third_auction, [auction_3])" by code_simp
  finally show ?thesis .
qed

text \<open>
  C1, as amended. For an auction with no lots, the stage of auction\_scraper.py whose
  loop stops at page \<open>n\<close>, and whose first page is not a failed fetch, returns false
  exactly when page \<open>n\<close> raises, that is when its fetch raises or \<^verbatim>\<open>urljoin\<close> raises on
  one of its lot links, and then leaves the auction as it was; otherwise it returns true
  and the lots are those of the pages 1 to \<open>n\<close>, in page order, where a page that is not
  fetched adds none. The stage of deutscherandhackett\_scraper.py returns true exactly
  when its one page is fetched, and otherwise leaves the auction as it was.
\<close>

theorem detail_stage_outcome:
  assumes "lots a = []" "lots a' = []"
  shows "(\<forall>n. 1 \<le> n \<and> (\<forall>p. 1 \<le> p \<and> p < n \<longrightarrow> goes_on uj c (url a) p) \<and> \<not> goes_on uj c (url a) n
            \<and> c (url a) \<noteq> Failed \<longrightarrow>
          (\<exists>us. scrape_auction_details uj c a =
             Some (if raises uj c (url a) n then (False, a, us)
                   else (True,
                         a\<lparr>lots := concat (map (lots_of_page uj c (url a)) [1..<Suc n])\<rparr>,
                         us)))) \<and>
         (\<exists>us. dh_scrape_auction_details d a' =
            (case d (url a') of
               Fetched soup \<Rightarrow>
                 (True,
                  a'\<lparr>lots := map (\<lambda>lot. lot\<lparr>auctionUrl := Some (url a')\<rparr>)
                    (List.map_filter (\<lambda>u. fst (dh_scrape_lot_details d u)) (dh_tasks soup))\<rparr>,
                  us)
             | _ \<Rightarrow> (False, a', us)))"
proof (intro conjI allI impI)
  fix n
  assume "1 \<le> n \<and> (\<forall>p. 1 \<le> p \<and> p < n \<longrightarrow> goes_on uj c (url a) p) \<and> \<not> goes_on uj c (url a) n
            \<and> c (url a) \<noteq> Failed"
  then have "scrape_auction_details uj c a =
     Some (if raises uj c (url a) n
           then (False, a, concat (map (\<lambda>p. snd (scrape_page uj c (url a) p)) [1..<Suc n]))
           else (True, a\<lparr>lots := concat (map (lots_of_page uj c (url a)) [1..<Suc n])\<rparr>,
                 concat (map (\<lambda>p. snd (scrape_page uj c (url a) p)) [1..<Suc n])))"
    using assms(1) by (intro scrape_auction_details_ends) auto
  then show "\<exists>us. scrape_auction_details uj c a =
             Some (if raises uj c (url a) n then (False, a, us)
                   else (True,
                         a\<lparr>lots := concat (map (lots_of_page uj c (url a)) [1..<Suc n])\<rparr>,
                         us))"
    by auto
next
  show "\<exists>us. dh_scrape_auction_details d a' =
            (case d (url a') of
               Fetched soup \<Rightarrow>
                 (True,
                  a'\<lparr>lots := map (\<lambda>lot. lot\<lparr>auctionUrl := Some (url a')\<rparr>)
                    (List.map_filter (\<lambda>u. fst (dh_scrape_lot_details d u)) (dh_tasks soup))\<rparr>,
                  us)
             | _ \<Rightarrow> (False, a', us))"
    by (rule dh_scrape_auction_details_cases [OF assms(2)])
qed

text \<open>
  C1 as stated fails: when the second page of an auction cannot be fetched, the stage
  of auction\_scraper.py returns true and leaves the lots of the first page in the
  auction.
\<close>

theorem partial_pages_counterexample:
  "lots first_auction = [] \<and>
   goes_on join web_down (url first_auction) 1 \<and>
   web_down (page_url (url first_auction) 2) = Failed \<and>
   scrape_auction_details join web_down first_auction =
     Some (True, half_auction, take 7 first_urls) \<and>
   lots half_auction = lots_of_page join web_down (url first_auction) 1 \<and>
   lots half_auction \<noteq> []"
proof (intro conjI)
  show "scrape_auction_details join web_down first_auction =
     Some (True, half_auction, take 7 first_urls)"
    by (rule web_down_first)
qed code_simp+

lemma web_listing:
  "fst (scrape_past_auctions join web results_url {auction_4}) = [third_auction, first_auction]"
  by code_simp

theorem discovery_idempotent_witness:
  "fst (scrape_past_auctions join web results_url {auction_4}) = [third_auction, first_auction] \<and>
   url third_auction \<notin> {auction_4} \<and> url first_auction \<notin> {auction_4} \<and>
   fst (scrape_past_auctions join web results_url
          (url ` set [third_auction, first_auction] \<union> {auction_4})) = []"
proof -
  note idem = discovery_idempotent [of join web results_url "{auction_4}"]
  from idem have "\<forall>a \<in> set (fst (scrape_past_auctions join web results_url {auction_4})).
      url a \<notin> {auction_4}"
    by (rule conjunct1)
  then have "\<forall>a \<in> set [third_auction, first_auction]. url a \<notin> {auction_4}"
    by (simp only: web_listing)
  then have "url third_auction \<notin> {auction_4} \<and> url first_auction \<notin> {auction_4}"
    by simp
  moreover from idem have "fst (scrape_past_auctions join web results_url
      (url ` set (fst (scrape_past_auctions join web results_url {auction_4})) \<union> {auction_4})) = []"
    by (rule conjunct2)
  then have "fst (scrape_past_auctions join web results_url
      (url ` set [third_auction, first_auction] \<union> {auction_4})) = []"
    by (simp only: web_listing)
  ultimately show ?thesis using web_listing by blast
qed

theorem discovery_output_witness:
  "fst (scrape_past_auctions join web results_url {auction_4}) = [third_auction, first_auction] \<and>
   year third_auction \<in> str ` {2015..2025} \<and> url third_auction \<noteq> [] \<and> lots third_auction = [] \<and>
   (\<exists>ns. map year [third_auction, first_auction] = map str ns \<and> sorted (rev ns)) \<and>
   web results_url = Fetched listing \<and>
   map url (filter (\<lambda>a. year a = ''2016'') [third_auction, first_auction]) =
     List.map_filter (resolve_url join)
       (filter (\<lambda>c. resolve_year c = Some ''2016'' \<and> ''2016'' \<in> str ` {2015..2025}
                  \<and> (case resolve_url join c of
                        Some v \<Rightarrow> v \<noteq> [] \<and> v \<notin> {auction_4}
                      | None \<Rightarrow> False))
          (catalogue_divs listing)) \<and>
   web_bad results_url = Fetched bad_listing \<and>
   resolve_year (entry ''23 March 2016'' ''//[::1/catalogue-details/1'') = Some ''2016'' \<and>
   resolve_url join (entry ''23 March 2016'' ''//[::1/catalogue-details/1'') = None \<and>
   fst (scrape_past_auctions join web_bad results_url {}) = []"
proof -
  note out = discovery_output [of join web results_url "{auction_4}"]
  have listing: "web results_url = Fetched listing" by code_simp
  from out have "\<forall>a \<in> set (fst (scrape_past_auctions join web results_url {auction_4})).
      year a \<in> str ` {2015..2025} \<and> url a \<noteq> [] \<and> lots a = []"
    by (rule conjunct1)
  then have "\<forall>a \<in> set [third_auction, first_auction].
      year a \<in> str ` {2015..2025} \<and> url a \<noteq> [] \<and> lots a = []"
    by (simp only: web_listing)
  then have 1: "year third_auction \<in> str ` {2015..2025} \<and> url third_auction \<noteq> []
      \<and> lots third_auction = []"
    by simp
  from out have "\<exists>ns. map year (fst (scrape_past_auctions join web results_url {auction_4})) =
      map str ns \<and> sorted (rev ns)"
    by (rule conjunct1 [OF conjunct2])
  then have 2: "\<exists>ns. map year [third_auction, first_auction] = map str ns \<and> sorted (rev ns)"
    by (simp only: web_listing)
  let ?C = "\<lambda>page. \<exists>c \<in> set (catalogue_divs page).
      (\<exists>y \<in> str ` {2015..2025}. resolve_year c = Some y) \<and> resolve_url join c = None"
  let ?R = "\<lambda>K out page. \<forall>y. map url (filter (\<lambda>a. year a = y) out) =
      List.map_filter (resolve_url join)
        (filter (\<lambda>c. resolve_year c = Some y \<and> y \<in> str ` {2015..2025}
                   \<and> (case resolve_url join c of Some v \<Rightarrow> v \<noteq> [] \<and> v \<notin> K | None \<Rightarrow> False))
           (catalogue_divs page))"
  have nC: "\<not> ?C listing"
  proof -
    have "\<forall>c \<in> set (catalogue_divs listing). resolve_url join c \<noteq> None" by code_simp
    then show ?thesis by blast
  qed
  from out have "\<forall>page. web results_url = Fetched page \<longrightarrow>
      (if ?C page then fst (scrape_past_auctions join web results_url {auction_4}) = []
       else ?R {auction_4} (fst (scrape_past_auctions join web results_url {auction_4})) page)"
    by (rule conjunct2 [OF conjunct2])
  then have "if ?C listing then fst (scrape_past_auctions join web results_url {auction_4}) = []
       else ?R {auction_4} (fst (scrape_past_auctions join web results_url {auction_4})) listing"
    using listing by blast
  then have "?R {auction_4} (fst (scrape_past_auctions join web results_url {auction_4}))
      listing"
    unfolding if_not_P [OF nC] .
  then have "?R {auction_4} [third_auction, first_auction] listing"
    unfolding web_listing .
  then have 3: "map url (filter (\<lambda>a. year a = ''2016'') [third_auction, first_auction]) =
     List.map_filter (resolve_url join)
       (filter (\<lambda>c. resolve_year c = Some ''2016'' \<and> ''2016'' \<in> str ` {2015..2025}
                  \<and> (case resolve_url join c of
                        Some v \<Rightarrow> v \<noteq> [] \<and> v \<notin> {auction_4}
                      | None \<Rightarrow> False))
          (catalogue_divs listing))"
    by (rule spec)
  have bad: "web_bad results_url = Fetched bad_listing" by code_simp
  have y: "resolve_year (entry ''23 March 2016'' ''//[::1/catalogue-details/1'') = Some ''2016''"
    by code_simp
  have r: "resolve_url join (entry ''23 March 2016'' ''//[::1/catalogue-details/1'') = None"
    by code_simp
  have "entry ''23 March 2016'' ''//[::1/catalogue-details/1'' \<in> set (catalogue_divs bad_listing)"
    by code_simp
  moreover have "''2016'' \<in> str ` {2015..2025}"
  proof -
    have "(2016::nat) \<in> {2015..2025}" by simp
    then have "str 2016 \<in> str ` {2015..2025}" by (rule imageI)
    then show ?thesis by (simp only: str_range)
  qed
  ultimately have C: "?C bad_listing" using y r by blast
  from discovery_output [of join web_bad results_url "{}"]
  have "\<forall>page. web_bad results_url = Fetched page \<longrightarrow>
      (if ?C page then fst (scrape_past_auctions join web_bad results_url {}) = []
       else ?R {} (fst (scrape_past_auctions join web_bad results_url {})) page)"
    by (rule conjunct2 [OF conjunct2])
  then have "if ?C bad_listing then fst (scrape_past_auctions join web_bad results_url {}) = []
       else ?R {} (fst (scrape_past_auctions join web_bad results_url {})) bad_listing"
    using bad by blast
  then have 4: "fst (scrape_past_auctions join web_bad results_url {}) = []"
    unfolding if_P [OF C] .
  from 1 2 3 4 listing web_listing bad y r show ?thesis by blast
qed


theorem detail_stage_outcome_witness:
  "lots first_auction = [] \<and> lots dh_auction = [] \<and>
   goes_on join web (url first_auction) 1 \<and> \<not> goes_on join web (url first_auction) 2 \<and>
   web (url first_auction) \<noteq> Failed \<and> \<not> raises join web (url first_auction) 2 \<and>
   (\<exists>us. scrape_auction_details join web first_auction = Some (True, full_auction, us)) \<and>
   \<not> goes_on join web_bad (url first_auction) 1 \<and> web_bad (url first_auction) = Fetched bad_page \<and>
   tasks join bad_page = None \<and> raises join web_bad (url first_auction) 1 \<and>
   (\<exists>us. scrape_auction_details join web_bad first_auction = Some (False, first_auction, us)) \<and>
   (\<exists>us. dh_scrape_auction_details dh_web dh_auction =
      (True, dh_auction\<lparr>lots := [dh_lot_1]\<rparr>, us))"
proof -
  have a: "lots first_auction = []" and b: "lots dh_auction = []" by code_simp+
  note out = detail_stage_outcome [OF a b, of join web dh_web]
  have g1: "goes_on join web (url first_auction) 1" by code_simp
  have g2: "\<not> goes_on join web (url first_auction) 2" by code_simp
  have nf: "web (url first_auction) \<noteq> Failed" by code_simp
  have nr: "\<not> raises join web (url first_auction) 2" by code_simp
  have "1 \<le> (2::nat) \<and> (\<forall>p. 1 \<le> p \<and> p < 2 \<longrightarrow> goes_on join web (url first_auction) p) \<and>
      \<not> goes_on join web (url first_auction) 2 \<and> web (url first_auction) \<noteq> Failed"
    using only_1 [of "goes_on join web (url first_auction)", OF g1] g2 nf by simp
  with out have "\<exists>us. scrape_auction_details join web first_auction =
      Some (if raises join web (url first_auction) 2 then (False, first_auction, us)
            else (True,
                  first_auction\<lparr>lots :=
                    concat (map (lots_of_page join web (url first_auction)) [1..<Suc 2])\<rparr>,
                  us))"
    by blast
  moreover have "first_auction\<lparr>lots :=
      concat (map (lots_of_page join web (url first_auction)) [1..<Suc 2])\<rparr> = full_auction"
    by code_simp
  ultimately have 1: "\<exists>us. scrape_auction_details join web first_auction =
      Some (True, full_auction, us)"
    using nr by simp
  have h1: "\<not> goes_on join web_bad (url first_auction) 1" by code_simp
  have hf: "web_bad (url first_auction) = Fetched bad_page" by code_simp
  have ht: "tasks join bad_page = None" by code_simp
  have hr: "raises join web_bad (url first_auction) 1" by code_simp
  have "1 \<le> (1::nat) \<and> (\<forall>p. 1 \<le> p \<and> p < 1 \<longrightarrow> goes_on join web_bad (url first_auction) p) \<and>
      \<not> goes_on join web_bad (url first_auction) 1 \<and> web_bad (url first_auction) \<noteq> Failed"
    using h1 hf by simp
  with detail_stage_outcome [OF a b, of join web_bad dh_web]
  have "\<exists>us. scrape_auction_details join web_bad first_auction =
      Some (if raises join web_bad (url first_auction) 1 then (False, first_auction, us)
            else (True,
                  first_auction\<lparr>lots :=
                    concat (map (lots_of_page join web_bad (url first_auction)) [1..<Suc 1])\<rparr>,
                  us))"
    by blast
  then have 3: "\<exists>us. scrape_auction_details join web_bad first_auction =
      Some (False, first_auction, us)"
    using hr by simp
  from out have "\<exists>us. dh_scrape_auction_details dh_web dh_auction =
      (case dh_web (url dh_auction) of
         Fetched soup \<Rightarrow>
           (True,
            dh_auction\<lparr>lots := map (\<lambda>lot. lot\<lparr>auctionUrl := Some (url dh_auction)\<rparr>)
              (List.map_filter (\<lambda>u. fst (dh_scrape_lot_details dh_web u)) (dh_tasks soup))\<rparr>,
            us)
       | _ \<Rightarrow> (False, dh_auction, us))"
    by (rule conjunct2)
  then obtain us where "dh_scrape_auction_details dh_web dh_auction =
      (case dh_web (url dh_auction) of
         Fetched soup \<Rightarrow>
           (True,
            dh_auction\<lparr>lots := map (\<lambda>lot. lot\<lparr>auctionUrl := Some (url dh_auction)\<rparr>)
              (List.map_filter (\<lambda>u. fst (dh_scrape_lot_details dh_web u)) (dh_tasks soup))\<rparr>,
            us)
       | _ \<Rightarrow> (False, dh_auction, us))" ..
  also have "\<dots> = (True, dh_auction\<lparr>lots := [dh_lot_1]\<rparr>, us)"
    by code_simp
  finally have 2: "\<exists>us. dh_scrape_auction_details dh_web dh_auction =
      (True, dh_auction\<lparr>lots := [dh_lot_1]\<rparr>, us)" ..
  from a b g1 g2 nf nr 1 h1 hf ht hr 3 2 show ?thesis by blast
qed



text \<open>
  C5. For an auction that already has lots, the stage returns true, fetches nothing and
  leaves the auction as it is.
\<close>

theorem filled_auction_skipped:
  assumes "lots a \<noteq> []"
  shows "scrape_auction_details uj c a = Some (True, a, []) \<and>
         dh_scrape_auction_details d a = (True, a, [])"
  using assms by (simp add: scrape_auction_details_def dh_scrape_auction_details_def)

text \<open>
  C6. After the stage of auction\_scraper.py on an auction whose lots, if it had any, had
  a price and the URL of the auction, every lot of the auction has a price and the URL of
  the auction; and when the auction had no lots, the price of every lot is the sold price
  that the page of that lot resolves to, so that no lot with an unresolved price is
  recorded.
\<close>

theorem recorded_lots_priced:
  assumes "scrape_auction_details uj c a = Some (ok, a', us)"
    and "\<forall>l \<in> set (lots a). price l \<noteq> None \<and> auctionUrl l = Some (url a)"
  shows "(\<forall>l \<in> set (lots a'). price l \<noteq> None \<and> auctionUrl l = Some (url a')) \<and>
         (lots a = [] \<longrightarrow>
            (\<forall>l \<in> set (lots a').
               \<exists>soup. c (lot_url l) = Fetched soup \<and> sold_price soup = price l))"
proof (cases "lots a = []")
  case False
  then have "a' = a" using assms(1) by (simp add: scrape_auction_details_def)
  then show ?thesis using assms(2) False by simp
next
  case True
  have url: "url a' = url a"
    using scrape_auction_details_frame(1) [OF assms(1)] by (metis auction.select_convs(1) auction.surjective auction.update_convs(8))
  have "\<forall>l \<in> set (lots a'). auctionUrl l = Some (url a) \<and>
      (\<exists>soup. c (lot_url l) = Fetched soup \<and> sold_price soup = price l \<and> price l \<noteq> None)"
  proof (cases ok)
    case False
    then have "a' = a" using scrape_auction_details_frame(2) [OF assms(1)] by simp
    then show ?thesis using True by simp
  next
    case ok: True
    from assms(1) True ok obtain r where
      loop: "page_loop uj c (url a) 1 [] [] = Some r" and r: "fst r = Some (lots a')"
      by (auto simp: scrape_auction_details_def split: option.splits prod.splits)
    from page_loop_lots [OF loop] r
    have "set (lots a') \<subseteq> (\<Union>p. set (lots_of_page uj c (url a) p))" by auto
    then show ?thesis using lots_of_page_member [of _ uj c "url a"] by blast
  qed
  then show ?thesis using url by auto
qed



theorem filled_auction_skipped_witness:
  "lots filled_auction \<noteq> [] \<and>
   scrape_auction_details join web filled_auction = Some (True, filled_auction, []) \<and>
   dh_scrape_auction_details dh_web filled_auction = (True, filled_auction, [])"
proof -
  have h: "lots filled_auction \<noteq> []" by code_simp
  from h filled_auction_skipped [OF h, of join web dh_web] show ?thesis by (rule conjI)
qed

theorem recorded_lots_priced_witness:
  "scrape_auction_details join web first_auction = Some (True, full_auction, first_urls) \<and>
   lots first_auction = [] \<and>
   sold_lot ''1'' ''1,200'' \<in> set (lots full_auction) \<and>
   price (sold_lot ''1'' ''1,200'') \<noteq> None \<and>
   auctionUrl (sold_lot ''1'' ''1,200'') = Some (url full_auction) \<and>
   (\<exists>soup. web (lot_url (sold_lot ''1'' ''1,200'')) = Fetched soup
      \<and> sold_price soup = price (sold_lot ''1'' ''1,200'')) \<and>
   tasks join (pages 2) = Some [item ''6'', item ''7''] \<and>
   web (item ''7'') = Fetched unsold_page \<and> sold_price unsold_page = None \<and>
   item ''7'' \<notin> lot_url ` set (lots full_auction)"
proof -
  have e: "lots first_auction = []" by code_simp
  then have pre: "\<forall>l \<in> set (lots first_auction).
      price l \<noteq> None \<and> auctionUrl l = Some (url first_auction)"
    by simp
  note priced = recorded_lots_priced [OF web_first pre]
  have m: "sold_lot ''1'' ''1,200'' \<in> set (lots full_auction)" by code_simp
  from priced have "\<forall>l \<in> set (lots full_auction).
      price l \<noteq> None \<and> auctionUrl l = Some (url full_auction)"
    by (rule conjunct1)
  from bspec [OF this m] have 1: "price (sold_lot ''1'' ''1,200'') \<noteq> None \<and>
      auctionUrl (sold_lot ''1'' ''1,200'') = Some (url full_auction)" .
  from priced e have "\<forall>l \<in> set (lots full_auction).
      \<exists>soup. web (lot_url l) = Fetched soup \<and> sold_price soup = price l"
    by blast
  from bspec [OF this m] have 2: "\<exists>soup. web (lot_url (sold_lot ''1'' ''1,200'')) = Fetched soup
      \<and> sold_price soup = price (sold_lot ''1'' ''1,200'')" .
  have 3: "tasks join (pages 2) = Some [item ''6'', item ''7'']" by code_simp
  have 4: "web (item ''7'') = Fetched unsold_page" by code_simp
  have 5: "sold_price unsold_page = None" by code_simp
  have 6: "item ''7'' \<notin> lot_url ` set (lots full_auction)" by code_simp
  from web_first e m 1 2 3 4 5 6 show ?thesis by blast
qed

lemma save_progress_fields [simp]:
  "heap (save_progress w ad s) = heap s"
  "saved (save_progress w ad s) = saved s @ [map ((!) (heap s)) ad]"
  "fetched (save_progress w ad s) = fetched s"
  "disk (save_progress w ad s) =
     (case w (length (saved s)) of
        Written \<Rightarrow> Snapshot (map ((!) (heap s)) ad)
      | OpenFails \<Rightarrow> disk s
      | DumpFails \<Rightarrow> Corrupt)"
  by (simp_all add: save_progress_def Let_def)

lemma map_update_same: "f y = f (xs ! i) \<Longrightarrow> map f (xs[i := y]) = map f xs"
  by (induction xs arbitrary: i) (auto split: nat.split)

lemma scrape_auction_details_url:
  assumes "scrape_auction_details uj c a = Some (ok, a', us)"
  shows "url a' = url a" "year a' = year a"
  using assms
  by (auto simp: scrape_auction_details_def split: if_splits option.splits prod.splits)

lemma process_auctions_run:
  assumes "process_auctions uj c w ad rs s = Some s'"
    and "distinct rs" and "\<forall>r \<in> set rs. n \<le> r \<and> r < length (heap s)"
  shows "length (heap s') = length (heap s)
     \<and> (\<forall>r. r \<notin> set rs \<longrightarrow> heap s' ! r = heap s ! r)
     \<and> (\<forall>r \<in> set rs. \<exists>ok us. scrape_auction_details uj c (heap s ! r) = Some (ok, heap s' ! r, us))
     \<and> length (saved s') = length (saved s) + length rs
     \<and> (rs \<noteq> [] \<longrightarrow> last (saved s') = map ((!) (heap s')) ad
           \<and> (w (length (saved s') - 1) = Written \<longrightarrow> disk s' = Snapshot (last (saved s'))))
     \<and> map url (heap s') = map url (heap s)
     \<and> take n (heap s') = take n (heap s)
     \<and> (\<forall>snap \<in> set (saved s'). snap \<in> set (saved s)
           \<or> (\<exists>h. snap = map ((!) h) ad \<and> length h = length (heap s)
                 \<and> take n h = take n (heap s) \<and> map url h = map url (heap s)))"
  using assms
proof (induction rs arbitrary: s)
  case Nil
  then show ?case by simp
next
  case (Cons r rs)
  from Cons.prems(1) obtain ok a' us where
    sc: "scrape_auction_details uj c (heap s ! r) = Some (ok, a', us)"
    by (auto split: option.splits)
  define s1 where "s1 = save_progress w ad (s\<lparr>heap := (heap s)[r := a'], fetched := fetched s @ us\<rparr>)"
  have run: "process_auctions uj c w ad rs s1 = Some s'"
    using Cons.prems(1) sc by (simp add: s1_def)
  have r: "n \<le> r" "r < length (heap s)" "r \<notin> set rs" "distinct rs"
    using Cons.prems(2,3) by auto
  have h1: "heap s1 = (heap s)[r := a']" by (simp add: s1_def)
  have len1: "length (heap s1) = length (heap s)" by (simp add: h1)
  have sv1: "saved s1 = saved s @ [map ((!) (heap s1)) ad]" by (simp add: s1_def)
  have dk1: "w (length (saved s)) = Written \<longrightarrow> disk s1 = Snapshot (map ((!) (heap s1)) ad)"
    by (simp add: s1_def)
  have url1: "map url (heap s1) = map url (heap s)"
    using scrape_auction_details_url(1) [OF sc] by (simp add: h1 map_update_same)
  have tk1: "take n (heap s1) = take n (heap s)"
    using r(1) by (simp add: h1)
  have at_r: "heap s1 ! r = a'" using r(2) by (simp add: h1)
  have other: "\<And>q. q \<noteq> r \<Longrightarrow> heap s1 ! q = heap s ! q" by (simp add: h1)
  have bounds: "\<forall>q \<in> set rs. n \<le> q \<and> q < length (heap s1)"
    using Cons.prems(3) by (simp add: len1)
  note IH = Cons.IH [OF run r(4) bounds]
  have c1: "length (heap s') = length (heap s)" using IH len1 by simp
  have c2: "\<forall>q. q \<notin> set (r # rs) \<longrightarrow> heap s' ! q = heap s ! q"
    using IH other by auto
  have c3: "\<forall>q \<in> set (r # rs). \<exists>ok us.
      scrape_auction_details uj c (heap s ! q) = Some (ok, heap s' ! q, us)"
  proof
    fix q
    assume q: "q \<in> set (r # rs)"
    show "\<exists>ok us. scrape_auction_details uj c (heap s ! q) = Some (ok, heap s' ! q, us)"
    proof (cases "q = r")
      case True
      have "heap s' ! r = a'" using IH r(3) at_r by auto
      then show ?thesis using sc True by auto
    next
      case False
      then have "q \<in> set rs" using q by simp
      then have "\<exists>ok us. scrape_auction_details uj c (heap s1 ! q) = Some (ok, heap s' ! q, us)"
        using IH by blast
      then show ?thesis using other [OF False] by simp
    qed
  qed
  have c4: "length (saved s') = length (saved s) + length (r # rs)"
    using IH sv1 by simp
  have c5: "last (saved s') = map ((!) (heap s')) ad
      \<and> (w (length (saved s') - 1) = Written \<longrightarrow> disk s' = Snapshot (last (saved s')))"
  proof (cases "rs = []")
    case True
    then have "s' = s1" using run by simp
    then show ?thesis using sv1 dk1 by simp
  next
    case False
    then show ?thesis using IH by blast
  qed
  have c6: "map url (heap s') = map url (heap s)" using IH url1 by simp
  have c7: "take n (heap s') = take n (heap s)" using IH tk1 by simp
  have c8: "\<forall>snap \<in> set (saved s'). snap \<in> set (saved s)
           \<or> (\<exists>h. snap = map ((!) h) ad \<and> length h = length (heap s)
                 \<and> take n h = take n (heap s) \<and> map url h = map url (heap s))"
  proof
    fix snap
    assume "snap \<in> set (saved s')"
    then have "snap \<in> set (saved s1)
           \<or> (\<exists>h. snap = map ((!) h) ad \<and> length h = length (heap s1)
                 \<and> take n h = take n (heap s1) \<and> map url h = map url (heap s1))"
      using IH by blast
    then show "snap \<in> set (saved s)
           \<or> (\<exists>h. snap = map ((!) h) ad \<and> length h = length (heap s)
                 \<and> take n h = take n (heap s) \<and> map url h = map url (heap s))"
      using sv1 len1 tk1 url1 by auto
  qed
  from c1 c2 c3 c4 c5 c6 c7 c8 show ?case by simp
qed

lemma mset_sort_reverse [simp]: "mset (sort_reverse key xs) = mset xs"
  by (simp add: sort_reverse_def)

lemma mset_map_index:
  assumes "mset ad = mset [0..<length h]"
  shows "mset (map (\<lambda>r. g (h ! r)) ad) = mset (map g h)"
proof -
  have "mset (map (\<lambda>r. g (h ! r)) ad) = image_mset (\<lambda>r. g (h ! r)) (mset ad)" by simp
  also have "\<dots> = mset (map (\<lambda>r. g (h ! r)) [0..<length h])" by (simp add: assms)
  also have "map (\<lambda>r. g (h ! r)) [0..<length h] = map g (map ((!) h) [0..<length h])" by simp
  also have "\<dots> = map g h" by (simp only: map_nth)
  finally show ?thesis .
qed

lemma start_fields:
  assumes "start uj c f existing = (ad, new_refs, s0)"
    and "new = fst (scrape_past_auctions uj c results_url (set (map url existing)))"
  shows "heap s0 = existing @ new" "saved s0 = []" "disk s0 = f"
    "new_refs = [length existing..<length existing + length new]"
    "mset ad = mset [0..<length (heap s0)]"
  using assms by (auto simp: start_def Let_def split: prod.splits)

lemma main_after_run:
  assumes "main_after k uj c w f = Some (Inr s)" "load_existing_data f = Inr existing"
  obtains ad new_refs s0 where "start uj c f existing = (ad, new_refs, s0)"
    "process_auctions uj c w ad (take k new_refs) s0 = Some s"
  using assms by (auto simp: main_after_def split: prod.splits)

lemma main_after_all:
  assumes "length (fst (scrape_past_auctions uj c results_url
      (case load_existing_data f of Inr existing \<Rightarrow> set (map url existing) | Inl e \<Rightarrow> {}))) \<le> k"
  shows "main_after k uj c w f = main uj c w f"
  using assms
  by (auto simp: main_after_def main_def start_def Let_def split: sum.splits prod.splits)

lemma web_start:
  "start join web (Snapshot [old_auction]) [old_auction] =
     ([1, 0, 2], [1, 2],
      \<lparr>heap = [old_auction, third_auction, first_auction], disk = Snapshot [old_auction],
       saved = [], fetched = [results_url]\<rparr>)"
  by code_simp

lemma web_run:
  "main_after 2 join web (\<lambda>n. Written) (Snapshot [old_auction]) = Some (Inr web_state)"
  by (simp add: main_after_def load_existing_data_def load_try_def web_start web_third web_first
      save_progress_def Let_def web_state_def)

lemma web_fourth:
  "scrape_auction_details join web fourth_auction = Some (True, fourth_auction, [auction_4])"
proof -
  have "lots fourth_auction = []" by code_simp
  moreover have "\<not> goes_on join web (url fourth_auction) 1" by code_simp
  ultimately have "scrape_auction_details join web fourth_auction =
     Some (if raises join web (url fourth_auction) 1
           then (False, fourth_auction,
                 concat (map (\<lambda>p. snd (scrape_page join web (url fourth_auction) p)) [1..<Suc 1]))
           else (True,
                 fourth_auction\<lparr>lots :=
                   concat (map (lots_of_page join web (url fourth_auction)) [1..<Suc 1])\<rparr>,
                 concat (map (\<lambda>p. snd (scrape_page join web (url fourth_auction) p)) [1..<Suc 1])))"
    by (intro scrape_auction_details_ends) simp_all
  also have "\<dots> = Some (True, fourth_auction, [auction_4])" by code_simp
  finally show ?thesis .
qed

lemma retry_start:
  "start join web (Snapshot [first_auction]) [first_auction] =
     ([1, 2, 0], [1, 2],
      \<lparr>heap = [first_auction, third_auction, fourth_auction], disk = Snapshot [first_auction],
       saved = [], fetched = [results_url]\<rparr>)"
  by code_simp

lemma retry_run:
  "main join web (\<lambda>n. Written) (Snapshot [first_auction]) = Some (Inr retry_state)"
  by (simp add: main_def load_existing_data_def load_try_def retry_start web_third web_fourth
      save_progress_def Let_def retry_state_def)



text \<open>
  C10. In a run of \<^verbatim>\<open>main\<close>, stopped after any number of turns of its loop, every
  saved collection holds every auction loaded from the file, unchanged (the order of the
  collection aside), and the loaded auctions are unchanged in memory.
\<close>

theorem existing_records_kept:
  assumes "load_existing_data f = Inr existing"
    and "main_after k uj c w f = Some (Inr s)"
  shows "(\<forall>snap \<in> set (saved s). mset existing \<subseteq># mset snap) \<and>
         take (length existing) (heap s) = existing"
proof -
  define n where "n = length existing"
  define new where "new = fst (scrape_past_auctions uj c results_url (set (map url existing)))"
  from main_after_run [OF assms(2,1)] obtain ad new_refs s0 where
    st: "start uj c f existing = (ad, new_refs, s0)"
    and run: "process_auctions uj c w ad (take k new_refs) s0 = Some s" .
  note sf = start_fields [OF st new_def]
  have d: "distinct (take k new_refs)" by (simp add: sf(4))
  have bounds: "\<forall>r \<in> set (take k new_refs). n \<le> r \<and> r < length (heap s0)"
  proof
    fix r
    assume "r \<in> set (take k new_refs)"
    then have "r \<in> set new_refs" by (rule in_set_takeD)
    then show "n \<le> r \<and> r < length (heap s0)" by (simp add: sf(1,4) n_def)
  qed
  note inv = process_auctions_run [OF run d bounds]
  have tk0: "take n (heap s0) = existing" by (simp add: sf(1) n_def)
  have "\<forall>snap \<in> set (saved s). mset existing \<subseteq># mset snap"
  proof
    fix snap
    assume "snap \<in> set (saved s)"
    moreover have "\<forall>snap \<in> set (saved s). \<exists>h. snap = map ((!) h) ad
        \<and> length h = length (heap s0) \<and> take n h = take n (heap s0)
        \<and> map url h = map url (heap s0)"
      using inv by (simp add: sf(2))
    ultimately obtain h where h: "snap = map ((!) h) ad" "length h = length (heap s0)"
      "take n h = take n (heap s0)"
      by blast
    have "mset (map (\<lambda>r. id (h ! r)) ad) = mset (map id h)"
      using sf(5) h(2) by (intro mset_map_index) simp
    then have "mset snap = mset h" by (simp add: h(1))
    also have "\<dots> = mset (take n h) + mset (drop n h)"
      by (metis append_take_drop_id mset_append)
    finally show "mset existing \<subseteq># mset snap" by (simp add: h(3) tk0)
  qed
  moreover have "take n (heap s) = existing" using inv tk0 by simp
  ultimately show ?thesis by (simp add: n_def)
qed





theorem existing_records_kept_witness:
  "load_existing_data (Snapshot [old_auction]) = Inr [old_auction] \<and>
   main_after 2 join web (\<lambda>n. Written) (Snapshot [old_auction]) = Some (Inr web_state) \<and>
   [third_auction, old_auction, full_auction] \<in> set (saved web_state) \<and>
   mset [old_auction] \<subseteq># mset [third_auction, old_auction, full_auction] \<and>
   take (length [old_auction]) (heap web_state) = [old_auction] \<and>
   lots old_auction \<noteq> []"
proof -
  have l: "load_existing_data (Snapshot [old_auction]) = Inr [old_auction]"
    by (simp add: load_existing_data_def load_try_def)
  note kept = existing_records_kept [OF l web_run]
  have m: "[third_auction, old_auction, full_auction] \<in> set (saved web_state)"
    by (simp add: web_state_def)
  from kept have "\<forall>snap \<in> set (saved web_state). mset [old_auction] \<subseteq># mset snap"
    by (rule conjunct1)
  from bspec [OF this m] have 1: "mset [old_auction] \<subseteq># mset [third_auction, old_auction, full_auction]" .
  from kept have 2: "take (length [old_auction]) (heap web_state) = [old_auction]"
    by (rule conjunct2)
  have 3: "lots old_auction \<noteq> []" by code_simp
  from l web_run m 1 2 3 show ?thesis by blast
qed

text \<open>
  C2 fails on \<^verbatim>\<open>main\<close> of auction\_scraper.py. The file holds the first auction with
  no lots; the site lists it, and would serve its lots. The run skips it in discovery,
  since its URL is known, and goes through the new auctions only: its page is never
  fetched, and the file still holds it with no lots.
\<close>

theorem persisted_empty_auction_not_retried:
  "lots first_auction = [] \<and>
   Some (url first_auction) \<in> resolve_url join ` set (catalogue_divs listing) \<and>
   scrape_auction_details join web first_auction = Some (True, full_auction, first_urls) \<and>
   main join web (\<lambda>n. Written) (Snapshot [first_auction]) = Some (Inr retry_state) \<and>
   url first_auction \<notin> set (fetched retry_state) \<and>
   first_auction \<in> set (heap retry_state) \<and>
   disk retry_state = Snapshot [third_auction, fourth_auction, first_auction]"
proof (intro conjI)
  show "scrape_auction_details join web first_auction = Some (True, full_auction, first_urls)"
    by (rule web_first)
  show "main join web (\<lambda>n. Written) (Snapshot [first_auction]) = Some (Inr retry_state)"
    by (rule retry_run)
qed code_simp+

text \<open>
  The \<^verbatim>\<open>main\<close> of deutscherandhackett\_scraper.py goes through all the auctions of the
  file, and so fetches the page of one that has no lots.
\<close>

lemma dh_main_retries:
  "(case dh_main dh_web (\<lambda>n. Written) (Snapshot [dh_auction]) of
      Inr s \<Rightarrow> url dh_auction \<in> set (fetched s) \<and> heap s = [dh_auction\<lparr>lots := [dh_lot_1]\<rparr>]
    | Inl e \<Rightarrow> False)"
  by code_simp

end
